theory Spec2Isabelle
  imports Complex_Main
begin

section \<open>The Kafka backend of crawlfrontier (contrib/backends/remote.py)\<close>

text \<open>
  A shallow embedding of \<open>KafkaBackend\<close>. The object's attributes are the fields of a
  record that every method takes and returns. The broker, the JSON codec and the
  \<open>Request\<close> class are imported by the module, not defined in it; they are parameters of
  the model. Python exceptions are values of type \<open>exn\<close>, and a method that can raise
  returns \<open>exn + result\<close> with \<open>Inl\<close> for the exception.
\<close>

subsection \<open>Exceptions and decoded values\<close>

datatype exn =
    BrokerResponseError
  | KafkaUnavailableError
  | AttributeError
  | ValueError
  | KeyError
  | TypeError
  | IOError
  | OtherError

text \<open>What \<open>decoder.decode\<close> produces: a Python value built from JSON text. A dict is an
  association list read with \<open>map_of\<close>.\<close>

datatype json =
    JNull
  | JBool bool
  | JNum int
  | JStr string
  | JArr "json list"
  | JObj "(string \<times> json) list"

text \<open>Python's \<open>obj[key]\<close> for a string key: a dict looks the key up and raises KeyError
  when it is absent; a list, a string, a number, a boolean and None raise TypeError.\<close>

fun getitem :: "json \<Rightarrow> string \<Rightarrow> exn + json" where
  "getitem (JObj kvs) key = (case map_of kvs key of None \<Rightarrow> Inl KeyError | Some v \<Rightarrow> Inr v)"
| "getitem JNull key = Inl TypeError"
| "getitem (JBool b) key = Inl TypeError"
| "getitem (JNum n) key = Inl TypeError"
| "getitem (JStr s) key = Inl TypeError"
| "getitem (JArr xs) key = Inl TypeError"

subsection \<open>Python list slicing\<close>

text \<open>The bound of a slice \<open>xs[:i]\<close> or \<open>xs[i:]\<close>: a negative \<open>i\<close> counts from the end,
  and the result is clamped to the list.\<close>

definition slice_bound :: "int \<Rightarrow> nat \<Rightarrow> nat" where
  "slice_bound i len = (if i < 0 then nat (max 0 (int len + i)) else min (nat i) len)"

definition slice_to :: "'a list \<Rightarrow> int \<Rightarrow> 'a list" where
  "slice_to xs i = take (slice_bound i (length xs)) xs"

definition slice_from :: "'a list \<Rightarrow> int \<Rightarrow> 'a list" where
  "slice_from xs i = drop (slice_bound i (length xs)) xs"

subsection \<open>Collaborators outside the module\<close>

text \<open>The manager is used for logging only. \<open>TestManager\<close> is the module's own stand-in;
  its constructor loops over the tuple \<open>('info' 'debug', 'warning', 'error')\<close>, whose first
  two literals are adjacent and so concatenate: it defines the logger methods
  \<open>infodebug\<close>, \<open>warning\<close> and \<open>error\<close>. A manager supplied by the caller has all four.\<close>

datatype manager = TestManager | FrontierManager "(string \<times> string) list"

datatype level = Info | Debug | Warning | Error

fun has_level :: "manager \<Rightarrow> level \<Rightarrow> bool" where
  "has_level TestManager Info = False"
| "has_level TestManager Debug = False"
| "has_level TestManager Warning = True"
| "has_level TestManager Error = True"
| "has_level (FrontierManager settings) lvl = True"

text \<open>The messages the module logs, with the values it formats into them.\<close>

datatype logmsg =
    CouldNotConnectKafka string
  | CouldNotConnectProducer
  | CouldNotConnectConsumer
  | ConnectedConsumerTo string
  | CouldNotConnectConsumerLater string
  | CouldNotSend int int
  | CouldNotConnectConsumerTo string
  | NoUrlField
  | CouldNotDecode string string
  | Timeout real int int int

datatype client = KafkaClient string
datatype producer = SimpleProducer client
datatype consumer = SimpleConsumer client string string

text \<open>The broker as the module sees it. Each call of the kafka library either returns or
  raises; the \<open>k\<close>-th call of a kind gets the \<open>k\<close>-th answer.\<close>

record world =
  new_client :: "string \<Rightarrow> exn option"
  new_producer :: "nat \<Rightarrow> exn option"
  new_consumer :: "nat \<Rightarrow> exn option"
  get_messages :: "nat \<Rightarrow> exn + string list"
  send_messages :: "nat \<Rightarrow> exn option"

text \<open>\<open>ScrapyJSONEncoder\<close>, \<open>ScrapyJSONDecoder\<close> and \<open>crawlfrontier.core.models.Request\<close>.
  The seeds and the requests handed back are values of one type \<open>'a\<close>, the caller's
  objects.\<close>

record 'a lib =
  Request :: "json \<Rightarrow> 'a"
  encode :: "json \<Rightarrow> string"
  decode :: "string \<Rightarrow> exn + json"

subsection \<open>The backend object\<close>

text \<open>The attributes of \<open>KafkaBackend\<close>, followed by what the object has done to the outside
  so far: the log, the connection attempts, the polls with their arguments, the send
  attempts, the sleeps and the calls of the producer's \<open>stop\<close>.\<close>

record 'a backend =
  manager :: manager
  seeds :: "'a list"
  server :: string
  topic_todo :: string
  topic_done :: string
  group_id :: string
  wait_time :: real
  comm_tries :: int
  conn :: client
  prod_role :: "producer option"
  cons_role :: "consumer option"
  logs :: "(level \<times> logmsg) list"
  producer_attempts :: nat
  consumer_attempts :: nat
  polled :: "(int \<times> real) list"
  sends :: "(string \<times> string) list"
  slept :: "real list"
  stops :: nat

definition DEFAULT_SERVER :: string where "DEFAULT_SERVER = ''localhost:9092''"
definition DEFAULT_GROUP :: string where "DEFAULT_GROUP = ''scrapy-crawler''"
definition DEFAULT_TOPIC_TODO :: string where "DEFAULT_TOPIC_TODO = ''frontier-todo''"
definition DEFAULT_TOPIC_DONE :: string where "DEFAULT_TOPIC_DONE = ''frontier-done''"
definition DEFAULT_WAIT_TIME :: real where "DEFAULT_WAIT_TIME = 1"
definition DEFAULT_COMM_TRIES :: int where "DEFAULT_COMM_TRIES = 5"

text \<open>\<open>x or d\<close>: Python takes \<open>d\<close> when \<open>x\<close> is falsy, which None, the empty string and
  zero all are.\<close>

definition str_or :: "string option \<Rightarrow> string \<Rightarrow> string" where
  "str_or x d = (case x of None \<Rightarrow> d | Some v \<Rightarrow> if v = [] then d else v)"

definition real_or :: "real option \<Rightarrow> real \<Rightarrow> real" where
  "real_or x d = (case x of None \<Rightarrow> d | Some v \<Rightarrow> if v = 0 then d else v)"

definition int_or :: "int option \<Rightarrow> int \<Rightarrow> int" where
  "int_or x d = (case x of None \<Rightarrow> d | Some v \<Rightarrow> if v = 0 then d else v)"

definition manager_or :: "manager option \<Rightarrow> manager" where
  "manager_or x = (case x of None \<Rightarrow> TestManager | Some m \<Rightarrow> m)"

text \<open>Logging. Every manager has \<open>warning\<close> and \<open>error\<close>, so these calls return; \<open>info\<close> is
  missing from \<open>TestManager\<close>, where reading the attribute raises.\<close>

definition warning :: "logmsg \<Rightarrow> 'a backend \<Rightarrow> 'a backend" where
  "warning m s = s\<lparr>logs := logs s @ [(Warning, m)]\<rparr>"

definition info :: "logmsg \<Rightarrow> 'a backend \<Rightarrow> exn + 'a backend" where
  "info m s = (if has_level (manager s) Info then Inr (s\<lparr>logs := logs s @ [(Info, m)]\<rparr>)
               else Inl AttributeError)"

text \<open>\<open>time.sleep\<close> refuses a negative length.\<close>

definition sleep :: "real \<Rightarrow> 'a backend \<Rightarrow> exn + 'a backend" where
  "sleep t s = (if t < 0 then Inl IOError else Inr (s\<lparr>slept := slept s @ [t]\<rparr>))"

subsection \<open>Connecting\<close>

text \<open>\<open>_connect_producer\<close> and \<open>_connect_consumer\<close>: only BrokerResponseError is caught.\<close>

definition connect_producer :: "world \<Rightarrow> 'a backend \<Rightarrow> exn + (bool \<times> 'a backend)" where
  "connect_producer w s =
     (if prod_role s = None then
        (let s1 = s\<lparr>producer_attempts := producer_attempts s + 1\<rparr> in
         case new_producer w (producer_attempts s) of
           None \<Rightarrow> Inr (True, s1\<lparr>prod_role := Some (SimpleProducer (conn s))\<rparr>)
         | Some e \<Rightarrow>
             if e = BrokerResponseError
             then Inr (False, warning CouldNotConnectProducer (s1\<lparr>prod_role := None\<rparr>))
             else Inl e)
      else Inr (True, s))"

definition connect_consumer :: "world \<Rightarrow> 'a backend \<Rightarrow> exn + (bool \<times> 'a backend)" where
  "connect_consumer w s =
     (if cons_role s = None then
        (let s1 = s\<lparr>consumer_attempts := consumer_attempts s + 1\<rparr> in
         case new_consumer w (consumer_attempts s) of
           None \<Rightarrow>
             Inr (True, s1\<lparr>cons_role := Some (SimpleConsumer (conn s) (group_id s) (topic_todo s))\<rparr>)
         | Some e \<Rightarrow>
             if e = BrokerResponseError
             then Inr (False, warning CouldNotConnectConsumer (s1\<lparr>cons_role := None\<rparr>))
             else Inl e)
      else Inr (True, s))"

subsection \<open>Construction and lifecycle\<close>

text \<open>\<open>__init__\<close>: every argument goes through \<open>or\<close> with its default. When \<open>KafkaClient\<close>
  raises, the exception leaves the constructor (KafkaUnavailableError after an error is
  logged) and there is no object. Otherwise the consumer and then the producer are
  connected, and a refusal of either leaves that role unset.\<close>

definition init ::
  "world \<Rightarrow> manager option \<Rightarrow> string option \<Rightarrow> string option \<Rightarrow> string option \<Rightarrow>
   string option \<Rightarrow> real option \<Rightarrow> int option \<Rightarrow> exn + 'a backend" where
  "init w manager_arg server_arg group_arg topic_todo_arg topic_done_arg wait_time_arg
        comm_tries_arg =
     (let srv = str_or server_arg DEFAULT_SERVER in
      case new_client w srv of
        Some e \<Rightarrow> Inl e
      | None \<Rightarrow>
          (let s0 = \<lparr> manager = manager_or manager_arg,
                      seeds = [],
                      server = srv,
                      topic_todo = str_or topic_todo_arg DEFAULT_TOPIC_TODO,
                      topic_done = str_or topic_done_arg DEFAULT_TOPIC_DONE,
                      group_id = str_or group_arg DEFAULT_GROUP,
                      wait_time = real_or wait_time_arg DEFAULT_WAIT_TIME,
                      comm_tries = int_or comm_tries_arg DEFAULT_COMM_TRIES,
                      conn = KafkaClient srv,
                      prod_role = None,
                      cons_role = None,
                      logs = [],
                      producer_attempts = 0,
                      consumer_attempts = 0,
                      polled = [],
                      sends = [],
                      slept = [],
                      stops = 0 \<rparr> in
           case connect_consumer w s0 of
             Inl e \<Rightarrow> Inl e
           | Inr (c, s1) \<Rightarrow>
               (case connect_producer w s1 of
                  Inl e \<Rightarrow> Inl e
                | Inr (p, s2) \<Rightarrow> Inr s2)))"

definition from_manager :: "world \<Rightarrow> (string \<times> string) list \<Rightarrow> exn + 'a backend" where
  "from_manager w settings =
     init w (Some (FrontierManager settings))
       (map_of settings ''KAFKA_SERVER'')
       (map_of settings ''KAFKA_GROUP'')
       (map_of settings ''KAFKA_TOPIC_TODO'')
       (map_of settings ''KAFKA_TOPIC_DONE'')
       None None"

text \<open>\<open>frontier_start\<close> connects the consumer and logs the outcome: a success with \<open>info\<close>,
  which \<open>TestManager\<close> lacks, a failure with \<open>warning\<close>.\<close>

definition frontier_start :: "world \<Rightarrow> 'a backend \<Rightarrow> exn + 'a backend" where
  "frontier_start w s =
     (case connect_consumer w s of
        Inl e \<Rightarrow> Inl e
      | Inr (ok, s1) \<Rightarrow>
          if ok then info (ConnectedConsumerTo (topic_todo s1)) s1
          else Inr (warning (CouldNotConnectConsumerLater (topic_todo s1)) s1))"

text \<open>\<open>frontier_stop\<close> calls \<open>self._prod.stop()\<close> with no check: on None the attribute
  lookup raises.\<close>

definition frontier_stop :: "'a backend \<Rightarrow> exn + 'a backend" where
  "frontier_stop s =
     (case prod_role s of
        None \<Rightarrow> Inl AttributeError
      | Some p \<Rightarrow> Inr (s\<lparr>stops := stops s + 1\<rparr>))"

subsection \<open>Publishing\<close>

text \<open>The retry loop of \<open>_send_message\<close>, entered with \<open>success = False\<close> and
  \<open>n_tries = 0\<close>. Each round is one \<open>send_messages\<close> on the done topic; a
  BrokerResponseError counts a try, logs a warning and sleeps \<open>wait_time\<close>.\<close>

function send_loop ::
  "world \<Rightarrow> 'a backend \<Rightarrow> string \<Rightarrow> bool \<Rightarrow> int \<Rightarrow> exn + (bool \<times> 'a backend)" where
  "send_loop w s msg success n_tries =
     (if \<not> success \<and> n_tries < comm_tries s then
        (case prod_role s of
           None \<Rightarrow> Inl AttributeError
         | Some p \<Rightarrow>
             (let s1 = s\<lparr>sends := sends s @ [(topic_done s, msg)]\<rparr> in
              case send_messages w (length (sends s)) of
                None \<Rightarrow> send_loop w s1 msg True n_tries
              | Some e \<Rightarrow>
                  if e = BrokerResponseError then
                    (case sleep (wait_time s1)
                            (warning (CouldNotSend (n_tries + 1) (comm_tries s1)) s1) of
                       Inl e' \<Rightarrow> Inl e'
                     | Inr s2 \<Rightarrow> send_loop w s2 msg False (n_tries + 1))
                  else Inl e))
      else Inr (success, s))"
  by pat_completeness auto
termination
  by (relation "measure (\<lambda>(w, s, msg, success, n_tries).
                  if success then 0 else Suc (nat (comm_tries s - n_tries)))")
     (auto simp: sleep_def warning_def split: if_splits)

definition send_message :: "'a lib \<Rightarrow> world \<Rightarrow> 'a backend \<Rightarrow> json \<Rightarrow> exn + (bool \<times> 'a backend)" where
  "send_message lb w s obj =
     (case connect_producer w s of
        Inl e \<Rightarrow> Inl e
      | Inr (ok, s1) \<Rightarrow>
          if ok then send_loop w s1 (encode lb obj) False 0
          else Inr (False, s1))"

definition add_seeds :: "'a backend \<Rightarrow> 'a list \<Rightarrow> 'a backend" where
  "add_seeds s new_seeds = s\<lparr>seeds := seeds s @ new_seeds\<rparr>"

text \<open>The dict \<open>page_crawled\<close> builds from the response's URL and the links' URLs.\<close>

definition crawl_event :: "string \<Rightarrow> string list \<Rightarrow> json" where
  "crawl_event url links = JObj [(''url'', JStr url), (''links'', JArr (map JStr links))]"

text \<open>\<open>page_crawled\<close> hands the dict to \<open>_send_message\<close> and drops the boolean it
  returns.\<close>

definition page_crawled :: "'a lib \<Rightarrow> world \<Rightarrow> 'a backend \<Rightarrow> string \<Rightarrow> string list \<Rightarrow> exn + 'a backend" where
  "page_crawled lb w s url links =
     (case send_message lb w s (crawl_event url links) of
        Inl e \<Rightarrow> Inl e
      | Inr (ok, s1) \<Rightarrow> Inr s1)"

definition request_error :: "'a backend \<Rightarrow> 'p \<Rightarrow> 'e \<Rightarrow> 'a backend" where
  "request_error s page err = s"

subsection \<open>Fetching the next requests\<close>

text \<open>The \<open>for offmsg in ...\<close> loop over one polled batch: every message sets
  \<open>success\<close>; a ValueError of the decoder and a KeyError or TypeError of \<open>obj['url']\<close>
  are logged and the message is dropped; any other exception leaves the loop.\<close>

fun process_messages ::
  "'a lib \<Rightarrow> 'a backend \<Rightarrow> json list \<Rightarrow> bool \<Rightarrow> string list \<Rightarrow>
   exn + (json list \<times> bool \<times> 'a backend)" where
  "process_messages lb s urls success [] = Inr (urls, success, s)"
| "process_messages lb s urls success (v # vs) =
     (case decode lb v of
        Inl e \<Rightarrow>
          if e = ValueError
          then process_messages lb (warning (CouldNotDecode (topic_todo s) v) s) urls True vs
          else Inl e
      | Inr obj \<Rightarrow>
          (case getitem obj ''url'' of
             Inl e \<Rightarrow>
               if e = KeyError \<or> e = TypeError
               then process_messages lb (warning NoUrlField s) urls True vs
               else Inl e
           | Inr u \<Rightarrow> process_messages lb s (urls @ [u]) True vs))"

text \<open>The \<open>while not success and fails < self._comm_tries\<close> loop, entered with
  \<open>urls = []\<close>, \<open>fails = 0\<close> and \<open>success = False\<close>.\<close>

function poll_loop ::
  "'a lib \<Rightarrow> world \<Rightarrow> 'a backend \<Rightarrow> int \<Rightarrow> json list \<Rightarrow> int \<Rightarrow> bool \<Rightarrow>
   exn + (json list \<times> 'a backend)" where
  "poll_loop lb w s max_n_requests urls fails success =
     (if \<not> success \<and> fails < comm_tries s then
        (case cons_role s of
           None \<Rightarrow> Inl AttributeError
         | Some c \<Rightarrow>
             (case get_messages w (length (polled s)) of
                Inl e \<Rightarrow> Inl e
              | Inr msgs \<Rightarrow>
                  (case process_messages lb
                          (s\<lparr>polled := polled s @ [(max_n_requests, wait_time s)]\<rparr>)
                          urls success msgs of
                     Inl e \<Rightarrow> Inl e
                   | Inr (urls1, success1, s1) \<Rightarrow>
                       if \<not> success1 then
                         poll_loop lb w
                           (warning (Timeout (wait_time s1) max_n_requests (fails + 1)
                                       (comm_tries s1)) s1)
                           max_n_requests urls1 (fails + 1) success1
                       else poll_loop lb w s1 max_n_requests urls1 fails success1)))
      else Inr (urls, s))"
  by pat_completeness auto
termination
proof -
  have keep: "comm_tries s1 = comm_tries s"
    if "process_messages lb s urls success msgs = Inr (urls1, success1, s1)"
    for lb :: "'a lib" and s s1 urls urls1 success success1 msgs
    using that
    by (induction msgs arbitrary: s urls success)
       (auto simp: warning_def split: sum.splits if_splits)
  show ?thesis
    by (relation "measure (\<lambda>(lb, w, s, max_n_requests, urls, fails, success).
                    if success then 0 else Suc (nat (comm_tries s - fails)))")
       (auto dest!: keep simp: warning_def)
qed

definition get_next_requests ::
  "'a lib \<Rightarrow> world \<Rightarrow> 'a backend \<Rightarrow> int \<Rightarrow> exn + ('a list \<times> 'a backend)" where
  "get_next_requests lb w s max_n_requests =
     (if seeds s \<noteq> [] then
        (let n = min (int (length (seeds s))) max_n_requests in
         Inr (slice_to (seeds s) n, s\<lparr>seeds := slice_from (seeds s) n\<rparr>))
      else
        (case connect_consumer w s of
           Inl e \<Rightarrow> Inl e
         | Inr (ok, s1) \<Rightarrow>
             if \<not> ok then Inr ([], warning (CouldNotConnectConsumerTo (topic_todo s1)) s1)
             else
               (case poll_loop lb w s1 max_n_requests [] 0 False of
                  Inl e \<Rightarrow> Inl e
                | Inr (urls, s2) \<Rightarrow> Inr (map (Request lb) urls, s2))))"

subsection \<open>Sequences of calls\<close>

text \<open>A caller that adds several batches of seeds, and one that asks for requests several
  times and keeps what each call returned.\<close>

fun add_all :: "'a backend \<Rightarrow> 'a list list \<Rightarrow> 'a backend" where
  "add_all s [] = s"
| "add_all s (b # bs) = add_all (add_seeds s b) bs"

fun get_all ::
  "'a lib \<Rightarrow> world \<Rightarrow> 'a backend \<Rightarrow> int list \<Rightarrow> exn + ('a list list \<times> 'a backend)" where
  "get_all lb w s [] = Inr ([], s)"
| "get_all lb w s (n # ns) =
     (case get_next_requests lb w s n of
        Inl e \<Rightarrow> Inl e
      | Inr (r, s1) \<Rightarrow>
          (case get_all lb w s1 ns of
             Inl e \<Rightarrow> Inl e
           | Inr (rs, s2) \<Rightarrow> Inr (r # rs, s2)))"

text \<open>One call after another, stopping at the first exception.\<close>

definition and_then :: "exn + 'x \<Rightarrow> ('x \<Rightarrow> exn + 'y) \<Rightarrow> exn + 'y" where
  "and_then r f = (case r of Inl e \<Rightarrow> Inl e | Inr x \<Rightarrow> f x)"

subsection \<open>What a polled message contributes\<close>

text \<open>The vocabulary of the statements about polled messages: the value a message body
  yields (the entry \<open>url\<close> of the decoded value, when the decoder returns and the lookup
  succeeds), the warning logged for a body that yields none, the bodies on which the
  decoder returns or raises ValueError, and the values obtainable from the broker's
  messages.\<close>

definition url_of :: "'a lib \<Rightarrow> string \<Rightarrow> json option" where
  "url_of lb v =
     (case decode lb v of
        Inl e \<Rightarrow> None
      | Inr obj \<Rightarrow> (case getitem obj ''url'' of Inl e \<Rightarrow> None | Inr u \<Rightarrow> Some u))"

definition discard_warning :: "'a lib \<Rightarrow> string \<Rightarrow> string \<Rightarrow> (level \<times> logmsg) list" where
  "discard_warning lb topic v =
     (case decode lb v of
        Inl e \<Rightarrow> [(Warning, CouldNotDecode topic v)]
      | Inr obj \<Rightarrow>
          (case getitem obj ''url'' of Inl e \<Rightarrow> [(Warning, NoUrlField)] | Inr u \<Rightarrow> []))"

definition decode_returns_or_refuses :: "'a lib \<Rightarrow> string \<Rightarrow> bool" where
  "decode_returns_or_refuses lb v = (case decode lb v of Inl e \<Rightarrow> e = ValueError | Inr obj \<Rightarrow> True)"

definition polled_url :: "'a lib \<Rightarrow> world \<Rightarrow> json \<Rightarrow> bool" where
  "polled_url lb w u \<longleftrightarrow>
     (\<exists>k msgs v. get_messages w k = Inr msgs \<and> v \<in> set msgs \<and> url_of lb v = Some u)"

subsection \<open>The wire codec\<close>

text \<open>
  Modelled from the spec: the encoder and the decoder. The module takes them from
  \<open>scrapy.utils.serialize\<close> (\<open>ScrapyJSONEncoder\<close>, \<open>ScrapyJSONDecoder\<close>) and defines
  neither. The spec asks for a deterministic serialisation of \<open>{url, links}\<close> to the wire
  format \<open>{ "url": <string>, "links": [<string>, ...] }\<close>, a JSON-compatible structure,
  and for a decoder that parses a payload back to a structured value and fails with a
  decode error on bytes that are not valid structured data. Below is JSON text over byte
  strings: a string goes between double quotes with the quote, the backslash and the
  control characters escaped and every other byte, those of UTF-8 sequences included,
  as it is; numbers are integers. The parser takes as fuel twice the length of the text.
\<close>

definition is_ws :: "char \<Rightarrow> bool" where
  "is_ws c \<longleftrightarrow> c = CHR 0x20 \<or> c = CHR 0x09 \<or> c = CHR 0x0A \<or> c = CHR 0x0D"

definition skip_ws :: "string \<Rightarrow> string" where
  "skip_ws cs = dropWhile is_ws cs"

definition hex_digit :: "nat \<Rightarrow> char" where
  "hex_digit n = (if n < 10 then char_of (48 + n) else char_of (87 + n))"

definition hex_value :: "char \<Rightarrow> nat option" where
  "hex_value c =
     (let k = (of_char c :: nat) in
      if 48 \<le> k \<and> k \<le> 57 then Some (k - 48)
      else if 97 \<le> k \<and> k \<le> 102 then Some (k - 87)
      else if 65 \<le> k \<and> k \<le> 70 then Some (k - 55)
      else None)"

definition escape_char :: "char \<Rightarrow> string" where
  "escape_char c =
     (if c = CHR 0x22 then [CHR 0x5C, CHR 0x22]
      else if c = CHR 0x5C then [CHR 0x5C, CHR 0x5C]
      else if (of_char c :: nat) < 32 then
        [CHR 0x5C, CHR ''u'', CHR ''0'', CHR ''0'',
         hex_digit (of_char c div 16), hex_digit (of_char c mod 16)]
      else [c])"

definition quote :: "string \<Rightarrow> string" where
  "quote s = CHR 0x22 # concat (map escape_char s) @ [CHR 0x22]"

definition utf8 :: "nat \<Rightarrow> string" where
  "utf8 n =
     (if n < 128 then [char_of n]
      else if n < 2048 then [char_of (192 + n div 64), char_of (128 + n mod 64)]
      else [char_of (224 + n div 4096), char_of (128 + (n div 64) mod 64),
            char_of (128 + n mod 64)])"

definition short_escape :: "char \<Rightarrow> char option" where
  "short_escape e =
     (if e = CHR 0x22 then Some (CHR 0x22)
      else if e = CHR 0x5C then Some (CHR 0x5C)
      else if e = CHR ''/'' then Some (CHR ''/'')
      else if e = CHR ''b'' then Some (CHR 0x08)
      else if e = CHR ''f'' then Some (CHR 0x0C)
      else if e = CHR ''n'' then Some (CHR 0x0A)
      else if e = CHR ''r'' then Some (CHR 0x0D)
      else if e = CHR ''t'' then Some (CHR 0x09)
      else None)"

definition hex4 :: "string \<Rightarrow> nat option" where
  "hex4 cs =
     (case map hex_value cs of
        [Some a, Some b, Some c, Some d] \<Rightarrow> Some (((a * 16 + b) * 16 + c) * 16 + d)
      | _ \<Rightarrow> None)"

function parse_chars :: "string \<Rightarrow> (string \<times> string) option" where
  "parse_chars [] = None"
| "parse_chars (c # cs) =
     (if c = CHR 0x22 then Some ([], cs)
      else if c = CHR 0x5C then
        (case cs of
           [] \<Rightarrow> None
         | e # cs1 \<Rightarrow>
             if e = CHR ''u'' then
               (case hex4 (take 4 cs1) of
                  None \<Rightarrow> None
                | Some n \<Rightarrow>
                    (case parse_chars (drop 4 cs1) of
                       None \<Rightarrow> None
                     | Some (s, r) \<Rightarrow> Some (utf8 n @ s, r)))
             else
               (case short_escape e of
                  None \<Rightarrow> None
                | Some d \<Rightarrow>
                    (case parse_chars cs1 of
                       None \<Rightarrow> None
                     | Some (s, r) \<Rightarrow> Some (d # s, r))))
      else if (of_char c :: nat) < 32 then None
      else
        (case parse_chars cs of
           None \<Rightarrow> None
         | Some (s, r) \<Rightarrow> Some (c # s, r)))"
  by pat_completeness auto
termination
  by (relation "measure length") auto

fun join :: "string \<Rightarrow> string list \<Rightarrow> string" where
  "join sep [] = []"
| "join sep [x] = x"
| "join sep (x # y # ys) = x @ sep @ join sep (y # ys)"

definition is_digit :: "char \<Rightarrow> bool" where
  "is_digit c \<longleftrightarrow> 48 \<le> (of_char c :: nat) \<and> (of_char c :: nat) \<le> 57"

definition parse_nat :: "string \<Rightarrow> nat" where
  "parse_nat ds = foldl (\<lambda>a c. 10 * a + (of_char c - 48)) 0 ds"

fun show_nat :: "nat \<Rightarrow> string" where
  "show_nat n = (if n < 10 then [char_of (48 + n)] else show_nat (n div 10) @ [char_of (48 + n mod 10)])"

declare show_nat.simps [simp del]

definition show_int :: "int \<Rightarrow> string" where
  "show_int i = (if i < 0 then CHR ''-'' # show_nat (nat (- i)) else show_nat (nat i))"

text \<open>Modelled from the spec: \<open>encode(event)\<close>, here for every structured value.\<close>

fun json_encode :: "json \<Rightarrow> string" where
  "json_encode JNull = ''null''"
| "json_encode (JBool b) = (if b then ''true'' else ''false'')"
| "json_encode (JNum i) = show_int i"
| "json_encode (JStr s) = quote s"
| "json_encode (JArr vs) = ''['' @ join '', '' (map json_encode vs) @ '']''"
| "json_encode (JObj kvs) =
     ''{'' @ join '', '' (map (\<lambda>(k, v). quote k @ '': '' @ json_encode v) kvs) @ ''}''"

definition parse_atom :: "string \<Rightarrow> (json \<times> string) option" where
  "parse_atom cs =
     (if take 4 cs = ''null'' then Some (JNull, drop 4 cs)
      else if take 4 cs = ''true'' then Some (JBool True, drop 4 cs)
      else if take 5 cs = ''false'' then Some (JBool False, drop 5 cs)
      else
        (let neg = (take 1 cs = ''-'');
             ds = (if neg then drop 1 cs else cs);
             digits = takeWhile is_digit ds
         in if digits = [] then None
            else Some (JNum ((if neg then - 1 else 1) * int (parse_nat digits)),
                       dropWhile is_digit ds)))"

fun parse_value :: "nat \<Rightarrow> string \<Rightarrow> (json \<times> string) option"
  and parse_elems :: "nat \<Rightarrow> string \<Rightarrow> (json list \<times> string) option"
  and parse_members :: "nat \<Rightarrow> string \<Rightarrow> ((string \<times> json) list \<times> string) option" where
  "parse_value 0 cs = None"
| "parse_value (Suc n) cs =
     (case skip_ws cs of
        [] \<Rightarrow> None
      | c # r \<Rightarrow>
          if c = CHR 0x22 then
            (case parse_chars r of None \<Rightarrow> None | Some (s, r1) \<Rightarrow> Some (JStr s, r1))
          else if c = CHR 0x5B then
            (case skip_ws r of
               [] \<Rightarrow> None
             | d # r1 \<Rightarrow>
                 if d = CHR 0x5D then Some (JArr [], r1)
                 else
                   (case parse_elems n (d # r1) of
                      None \<Rightarrow> None
                    | Some (vs, r2) \<Rightarrow> Some (JArr vs, r2)))
          else if c = CHR 0x7B then
            (case skip_ws r of
               [] \<Rightarrow> None
             | d # r1 \<Rightarrow>
                 if d = CHR 0x7D then Some (JObj [], r1)
                 else
                   (case parse_members n (d # r1) of
                      None \<Rightarrow> None
                    | Some (kvs, r2) \<Rightarrow> Some (JObj kvs, r2)))
          else parse_atom (c # r))"
| "parse_elems 0 cs = None"
| "parse_elems (Suc n) cs =
     (case parse_value n cs of
        None \<Rightarrow> None
      | Some (v, r) \<Rightarrow>
          (case skip_ws r of
             [] \<Rightarrow> None
           | d # r1 \<Rightarrow>
               if d = CHR '','' then
                 (case parse_elems n r1 of
                    None \<Rightarrow> None
                  | Some (vs, r2) \<Rightarrow> Some (v # vs, r2))
               else if d = CHR 0x5D then Some ([v], r1)
               else None))"
| "parse_members 0 cs = None"
| "parse_members (Suc n) cs =
     (case skip_ws cs of
        [] \<Rightarrow> None
      | q # r \<Rightarrow>
          if q \<noteq> CHR 0x22 then None
          else
            (case parse_chars r of
               None \<Rightarrow> None
             | Some (k, r1) \<Rightarrow>
                 (case skip_ws r1 of
                    [] \<Rightarrow> None
                  | col # r2 \<Rightarrow>
                      if col \<noteq> CHR '':'' then None
                      else
                        (case parse_value n r2 of
                           None \<Rightarrow> None
                         | Some (v, r3) \<Rightarrow>
                             (case skip_ws r3 of
                                [] \<Rightarrow> None
                              | d # r4 \<Rightarrow>
                                  if d = CHR '','' then
                                    (case parse_members n r4 of
                                       None \<Rightarrow> None
                                     | Some (kvs, r5) \<Rightarrow> Some ((k, v) # kvs, r5))
                                  else if d = CHR 0x7D then Some ([(k, v)], r4)
                                  else None)))))"

text \<open>Modelled from the spec: \<open>decode(bytes)\<close>, a structured value or a decode error
  (ValueError).\<close>

definition json_decode :: "string \<Rightarrow> exn + json" where
  "json_decode s =
     (case parse_value (Suc (2 * length s)) s of
        None \<Rightarrow> Inl ValueError
      | Some (v, r) \<Rightarrow> if skip_ws r = [] then Inr v else Inl ValueError)"

text \<open>The parser is unfolded one step at a time.\<close>

declare parse_chars.simps [simp del]
declare parse_value.simps [simp del] parse_elems.simps [simp del] parse_members.simps [simp del]

lemmas parse_value_step = parse_value.simps(2)
lemmas parse_elems_step = parse_elems.simps(2)
lemmas parse_members_step = parse_members.simps(2)

subsection \<open>Objects for the concrete runs\<close>

text \<open>The caller's objects in the concrete runs below: a seed carries its URL, and
  \<open>Request\<close> builds a \<open>RequestObj\<close> around whatever it is given.\<close>

datatype pyobj = Seed string | RequestObj json

text \<open>Four message bodies, and a decoder given by its answers on them, the ones a JSON
  decoder gives: the last body is cut short, and it and every other text are refused with
  ValueError.\<close>

definition well_formed_body :: string where
  \<open>well_formed_body = ''{"url": "http://a"}''\<close>

definition no_url_body :: string where
  \<open>no_url_body = ''{"links": []}''\<close>

definition numeric_url_body :: string where
  \<open>numeric_url_body = ''{"url": 5}''\<close>

definition garbage_body :: string where
  \<open>garbage_body = ''{"url": ''\<close>

definition example_decode :: "string \<Rightarrow> exn + json" where
  "example_decode v =
     (if v = well_formed_body then Inr (JObj [(''url'', JStr ''http://a'')])
      else if v = no_url_body then Inr (JObj [(''links'', JArr [])])
      else if v = numeric_url_body then Inr (JObj [(''url'', JNum 5)])
      else Inl ValueError)"

definition example_lib :: "pyobj lib" where
  "example_lib =
     \<lparr> Request = RequestObj, encode = (\<lambda>obj. ''payload''), decode = example_decode \<rparr>"

text \<open>A backend with both roles connected, three tries and no wait.\<close>

definition example_backend :: "pyobj backend" where
  "example_backend =
     \<lparr> manager = TestManager, seeds = [], server = DEFAULT_SERVER,
       topic_todo = DEFAULT_TOPIC_TODO, topic_done = DEFAULT_TOPIC_DONE,
       group_id = DEFAULT_GROUP, wait_time = 0, comm_tries = 3,
       conn = KafkaClient DEFAULT_SERVER,
       prod_role = Some (SimpleProducer (KafkaClient DEFAULT_SERVER)),
       cons_role =
         Some (SimpleConsumer (KafkaClient DEFAULT_SERVER) DEFAULT_GROUP DEFAULT_TOPIC_TODO),
       logs = [], producer_attempts = 1, consumer_attempts = 1, polled = [], sends = [],
       slept = [], stops = 0 \<rparr>"

text \<open>Brokers: one that accepts the client and refuses both roles; one that connects both
  roles, has no message and refuses every send; one that hands out a given batch at the
  first poll; one that refuses the producer only.\<close>

definition unreachable_world :: world where
  "unreachable_world =
     \<lparr> new_client = (\<lambda>srv. None),
       new_producer = (\<lambda>k. Some BrokerResponseError),
       new_consumer = (\<lambda>k. Some BrokerResponseError),
       get_messages = (\<lambda>k. Inl OtherError),
       send_messages = (\<lambda>k. Some BrokerResponseError) \<rparr>"

definition idle_world :: world where
  "idle_world =
     \<lparr> new_client = (\<lambda>srv. None),
       new_producer = (\<lambda>k. None),
       new_consumer = (\<lambda>k. None),
       get_messages = (\<lambda>k. Inr []),
       send_messages = (\<lambda>k. Some BrokerResponseError) \<rparr>"

definition batch_world :: "string list \<Rightarrow> world" where
  "batch_world msgs =
     \<lparr> new_client = (\<lambda>srv. None),
       new_producer = (\<lambda>k. None),
       new_consumer = (\<lambda>k. None),
       get_messages = (\<lambda>k. if k = 0 then Inr msgs else Inr []),
       send_messages = (\<lambda>k. None) \<rparr>"

definition producer_down_world :: world where
  "producer_down_world =
     \<lparr> new_client = (\<lambda>srv. None),
       new_producer = (\<lambda>k. Some BrokerResponseError),
       new_consumer = (\<lambda>k. None),
       get_messages = (\<lambda>k. Inr []),
       send_messages = (\<lambda>k. Some BrokerResponseError) \<rparr>"

text \<open>A broker that accepts the client and answers every attempt to build a consumer with
  KafkaUnavailableError, the exception the module names for a server it cannot reach.\<close>

definition consumer_unavailable_world :: world where
  "consumer_unavailable_world =
     \<lparr> new_client = (\<lambda>srv. None),
       new_producer = (\<lambda>k. None),
       new_consumer = (\<lambda>k. Some KafkaUnavailableError),
       get_messages = (\<lambda>k. Inr []),
       send_messages = (\<lambda>k. None) \<rparr>"

text \<open>The loops are unfolded one round at a time.\<close>

declare poll_loop.simps [simp del] send_loop.simps [simp del]

section \<open>Properties\<close>

subsection \<open>Slices\<close>

lemma slice_partition: "slice_to xs i @ slice_from xs i = xs"
  by (simp add: slice_to_def slice_from_def)

lemma slice_to_length:
  "0 \<le> n \<Longrightarrow> int (length (slice_to xs (min (int (length xs)) n))) \<le> n"
  by (auto simp: slice_to_def slice_bound_def min_def)

lemma slice_from_shrinks:
  "1 \<le> n \<Longrightarrow> xs \<noteq> [] \<Longrightarrow> length (slice_from xs (min (int (length xs)) n)) < length xs"
  by (cases xs) (auto simp: slice_from_def slice_bound_def min_def)

subsection \<open>The seed buffer\<close>

lemma get_next_requests_seeds:
  "seeds s \<noteq> [] \<Longrightarrow>
   get_next_requests lb w s n =
     Inr (slice_to (seeds s) (min (int (length (seeds s))) n),
          s\<lparr>seeds := slice_from (seeds s) (min (int (length (seeds s))) n)\<rparr>)"
  by (simp add: get_next_requests_def Let_def)

lemma get_next_requests_refused:
  "seeds s = [] \<Longrightarrow> cons_role s = None \<Longrightarrow>
   new_consumer w (consumer_attempts s) = Some BrokerResponseError \<Longrightarrow>
   get_next_requests lb w s n =
     Inr ([], s\<lparr>consumer_attempts := consumer_attempts s + 1,
                cons_role := None,
                logs := logs s @ [(Warning, CouldNotConnectConsumer),
                                  (Warning, CouldNotConnectConsumerTo (topic_todo s))]\<rparr>)"
  by (simp add: get_next_requests_def connect_consumer_def warning_def Let_def)

lemma add_all_seeds: "seeds (add_all s bs) = seeds s @ concat bs"
  by (induction bs arbitrary: s) (simp_all add: add_seeds_def)

lemma add_all_cons_role: "cons_role (add_all s bs) = cons_role s"
  by (induction bs arbitrary: s) (simp_all add: add_seeds_def)

text \<open>Calls against a broker that refuses the consumer: each call hands out a prefix of the
  buffer and keeps the rest.\<close>

lemma get_all_refused:
  "cons_role s = None \<Longrightarrow> \<forall>k. new_consumer w k = Some BrokerResponseError \<Longrightarrow>
   \<exists>outs s'. get_all lb w s ns = Inr (outs, s') \<and> length outs = length ns \<and>
      concat outs @ seeds s' = seeds s \<and>
      (\<forall>i<length ns. 0 \<le> ns ! i \<longrightarrow> int (length (outs ! i)) \<le> ns ! i) \<and>
      ((\<forall>n\<in>set ns. 1 \<le> n) \<and> length (seeds s) \<le> length ns \<longrightarrow> seeds s' = [])"
proof (induction ns arbitrary: s)
  case Nil
  then show ?case by simp
next
  case (Cons n ns)
  show ?case
  proof (cases "seeds s = []")
    case True
    let ?s1 = "s\<lparr>consumer_attempts := consumer_attempts s + 1, cons_role := None,
                logs := logs s @ [(Warning, CouldNotConnectConsumer),
                                  (Warning, CouldNotConnectConsumerTo (topic_todo s))]\<rparr>"
    have step: "get_next_requests lb w s n = Inr ([], ?s1)"
      using True Cons.prems by (simp add: get_next_requests_refused)
    have "cons_role ?s1 = None" by simp
    from Cons.IH[OF this Cons.prems(2)] obtain outs s' where
      rest: "get_all lb w ?s1 ns = Inr (outs, s')" "length outs = length ns"
        "concat outs @ seeds s' = seeds ?s1"
        "\<forall>i<length ns. 0 \<le> ns ! i \<longrightarrow> int (length (outs ! i)) \<le> ns ! i"
      by blast
    have bound: "\<forall>i<length (n # ns). 0 \<le> (n # ns) ! i \<longrightarrow>
        int (length (([] # outs) ! i)) \<le> (n # ns) ! i"
      using rest(4) by (auto simp: nth_Cons split: nat.splits)
    show ?thesis
      using step rest(1,2,3) bound True by (intro exI[of _ "[] # outs"] exI[of _ s']) simp
  next
    case False
    let ?m = "min (int (length (seeds s))) n"
    let ?s1 = "s\<lparr>seeds := slice_from (seeds s) ?m\<rparr>"
    have step: "get_next_requests lb w s n = Inr (slice_to (seeds s) ?m, ?s1)"
      using False by (rule get_next_requests_seeds)
    have "cons_role ?s1 = None" using Cons.prems(1) by simp
    from Cons.IH[OF this Cons.prems(2)] obtain outs s' where
      rest: "get_all lb w ?s1 ns = Inr (outs, s')" "length outs = length ns"
        "concat outs @ seeds s' = seeds ?s1"
        "\<forall>i<length ns. 0 \<le> ns ! i \<longrightarrow> int (length (outs ! i)) \<le> ns ! i"
        "(\<forall>n\<in>set ns. 1 \<le> n) \<and> length (seeds ?s1) \<le> length ns \<longrightarrow> seeds s' = []"
      by blast
    have part: "concat (slice_to (seeds s) ?m # outs) @ seeds s' = seeds s"
      using rest(3) by (simp add: slice_partition)
    have bound: "\<forall>i<length (n # ns). 0 \<le> (n # ns) ! i \<longrightarrow>
        int (length ((slice_to (seeds s) ?m # outs) ! i)) \<le> (n # ns) ! i"
      using rest(4) slice_to_length[of n "seeds s"] by (auto simp: nth_Cons split: nat.splits)
    have drain: "(\<forall>k\<in>set (n # ns). 1 \<le> k) \<and> length (seeds s) \<le> length (n # ns) \<longrightarrow>
        seeds s' = []"
      using rest(5) slice_from_shrinks[of n "seeds s"] False by auto
    show ?thesis
      using step rest(1,2) part bound drain
      by (intro exI[of _ "slice_to (seeds s) ?m # outs"] exI[of _ s']) simp
  qed
qed

text \<open>
  C1. Seeds are added in batches \<open>adds\<close> to a backend whose buffer is empty, and then
  \<open>get_next_requests\<close> is called once for each \<open>n\<close> of \<open>ns\<close>, against a broker that refuses
  the consumer, so that only the buffer is served. No call raises. What the calls return,
  concatenated in call order, followed by what is left in the buffer, is the list of the
  seeds added, in the order they were added: nothing is lost, repeated or reordered. A
  call with \<open>n \<ge> 0\<close> returns at most \<open>n\<close> items. When every \<open>n\<close> is at least 1 and there
  are at least as many calls as seeds, the calls return all the seeds. When the seeds are
  distinct, no seed is returned twice and none that was returned is still in the buffer.
\<close>

theorem seed_buffer_fifo:
  assumes "seeds s0 = []" and "cons_role s0 = None"
    and "\<forall>k. new_consumer w k = Some BrokerResponseError"
  shows "\<exists>outs s'. get_all lb w (add_all s0 adds) ns = Inr (outs, s') \<and>
      length outs = length ns \<and>
      concat outs @ seeds s' = concat adds \<and>
      (\<forall>i<length ns. 0 \<le> ns ! i \<longrightarrow> int (length (outs ! i)) \<le> ns ! i) \<and>
      ((\<forall>n\<in>set ns. 1 \<le> n) \<and> length (concat adds) \<le> length ns \<longrightarrow>
         concat outs = concat adds) \<and>
      (distinct (concat adds) \<longrightarrow>
         distinct (concat outs) \<and> set (concat outs) \<inter> set (seeds s') = {})"
proof -
  have c: "cons_role (add_all s0 adds) = None"
    using assms(2) by (simp add: add_all_cons_role)
  have sd: "seeds (add_all s0 adds) = concat adds"
    using assms(1) by (simp add: add_all_seeds)
  from get_all_refused[OF c assms(3), of lb ns] obtain outs s' where
    r: "get_all lb w (add_all s0 adds) ns = Inr (outs, s')" "length outs = length ns"
       "concat outs @ seeds s' = concat adds"
       "\<forall>i<length ns. 0 \<le> ns ! i \<longrightarrow> int (length (outs ! i)) \<le> ns ! i"
       "(\<forall>n\<in>set ns. 1 \<le> n) \<and> length (concat adds) \<le> length ns \<longrightarrow> seeds s' = []"
    unfolding sd by blast
  have full: "(\<forall>n\<in>set ns. 1 \<le> n) \<and> length (concat adds) \<le> length ns \<longrightarrow>
         concat outs = concat adds"
    using r(3,5) by auto
  have dist: "distinct (concat adds) \<longrightarrow>
         distinct (concat outs) \<and> set (concat outs) \<inter> set (seeds s') = {}"
  proof
    assume "distinct (concat adds)"
    then have "distinct (concat outs @ seeds s')" using r(3) by simp
    then show "distinct (concat outs) \<and> set (concat outs) \<inter> set (seeds s') = {}"
      by auto
  qed
  show ?thesis using r(1,2,3,4) full dist by blast
qed

theorem seed_buffer_fifo_witness:
  "\<exists>outs s'.
     get_all example_lib unreachable_world
       (add_all (example_backend\<lparr>cons_role := None\<rparr>)
          [[Seed ''http://a'', Seed ''http://b''], [Seed ''http://c'']]) [2, 2, 2]
       = Inr (outs, s') \<and>
     length outs = 3 \<and>
     concat outs = [Seed ''http://a'', Seed ''http://b'', Seed ''http://c'']"
proof -
  let ?s0 = "example_backend\<lparr>cons_role := None\<rparr>"
  let ?adds = "[[Seed ''http://a'', Seed ''http://b''], [Seed ''http://c'']]"
  have h1: "seeds ?s0 = []" by (simp add: example_backend_def)
  have h2: "cons_role ?s0 = None" by simp
  have h3: "\<forall>k. new_consumer unreachable_world k = Some BrokerResponseError"
    by (simp add: unreachable_world_def)
  from seed_buffer_fifo[OF h1 h2 h3, of example_lib ?adds "[2, 2, 2]"]
  obtain outs s' where
    r: "get_all example_lib unreachable_world (add_all ?s0 ?adds) [2, 2, 2] = Inr (outs, s')"
       "length outs = length [2, 2, 2 :: int]"
       "(\<forall>n\<in>set [2, 2, 2 :: int]. 1 \<le> n) \<and>
          length (concat ?adds) \<le> length [2, 2, 2 :: int] \<longrightarrow>
          concat outs = concat ?adds"
    by blast
  from r(3) have "concat outs = [Seed ''http://a'', Seed ''http://b'', Seed ''http://c'']"
    by simp
  with r(1,2) show ?thesis by simp
qed

subsection \<open>Polling an idle topic\<close>

text \<open>With every poll empty, the loop polls once for each remaining try, logs a timeout
  for each and leaves the rest of the object alone.\<close>

lemma poll_loop_idle:
  assumes "cons_role s = Some c" and "\<forall>k. get_messages w k = Inr []"
  shows "poll_loop lb w s n urls fails False =
     Inr (urls,
          s\<lparr>polled := polled s @ replicate (nat (comm_tries s - fails)) (n, wait_time s),
            logs := logs s @
              map (\<lambda>i. (Warning, Timeout (wait_time s) n i (comm_tries s)))
                [fails + 1..comm_tries s]\<rparr>)"
  using assms(1)
proof (induction "nat (comm_tries s - fails)" arbitrary: s fails)
  case 0
  then have "\<not> fails < comm_tries s" by simp
  then show ?case using 0 by (subst poll_loop.simps) simp
next
  case (Suc k)
  then have lt: "fails < comm_tries s" by simp
  let ?s1 = "s\<lparr>polled := polled s @ [(n, wait_time s)]\<rparr>"
  let ?s2 = "warning (Timeout (wait_time s) n (fails + 1) (comm_tries s)) ?s1"
  have k: "k = nat (comm_tries ?s2 - (fails + 1))"
    using Suc(2) by (simp add: warning_def)
  have c2: "cons_role ?s2 = Some c" using Suc(3) by (simp add: warning_def)
  have step: "poll_loop lb w s n urls fails False = poll_loop lb w ?s2 n urls (fails + 1) False"
    using lt Suc(3) assms(2) by (subst poll_loop.simps) simp
  have n: "nat (comm_tries s - fails) = Suc k" using Suc(2) by simp
  have up: "[fails + 1..comm_tries s] = (fails + 1) # [fails + 1 + 1..comm_tries s]"
    using lt by (simp add: upto_rec1)
  show ?case
    unfolding step Suc(1)[OF k c2] n up
    using k[symmetric]
    by (simp add: warning_def replicate_append_same)
qed

text \<open>
  C4. \<open>get_next_requests\<close> is called with an empty seed buffer and a connected consumer, on
  a topic whose every poll returns no message, by a backend with \<open>comm_tries \<ge> 0\<close>. The
  call returns the empty list after exactly \<open>comm_tries\<close> polls, each made with the batch
  size asked for and the configured wait as its timeout; it logs one timeout warning per
  poll, makes no connection attempt and does not sleep.
\<close>

theorem idle_topic_polls:
  assumes "seeds s = []" and "cons_role s = Some c"
    and "\<forall>k. get_messages w k = Inr []" and "0 \<le> comm_tries s"
  shows "\<exists>s'. get_next_requests lb w s max_n = Inr ([], s') \<and>
      polled s' = polled s @ replicate (nat (comm_tries s)) (max_n, wait_time s) \<and>
      int (length (polled s')) = int (length (polled s)) + comm_tries s \<and>
      logs s' = logs s @
        map (\<lambda>i. (Warning, Timeout (wait_time s) max_n i (comm_tries s))) [1..comm_tries s] \<and>
      consumer_attempts s' = consumer_attempts s \<and> slept s' = slept s"
proof -
  have conn: "connect_consumer w s = Inr (True, s)"
    using assms(2) by (simp add: connect_consumer_def)
  show ?thesis
    using assms(1,4) poll_loop_idle[OF assms(2,3), of lb max_n "[]" 0]
    by (simp add: get_next_requests_def conn)
qed

theorem idle_topic_polls_witness:
  "\<exists>s'. get_next_requests example_lib idle_world example_backend 10 = Inr ([], s') \<and>
      polled s' = [(10, 0), (10, 0), (10, 0)]"
proof -
  have h1: "seeds example_backend = []" by (simp add: example_backend_def)
  have h2: "cons_role example_backend =
      Some (SimpleConsumer (KafkaClient DEFAULT_SERVER) DEFAULT_GROUP DEFAULT_TOPIC_TODO)"
    by (simp add: example_backend_def)
  have h3: "\<forall>k. get_messages idle_world k = Inr []" by (simp add: idle_world_def)
  have h4: "0 \<le> comm_tries example_backend" by (simp add: example_backend_def)
  from idle_topic_polls[OF h1 h2 h3 h4, of example_lib 10] obtain s' where
    r: "get_next_requests example_lib idle_world example_backend 10 = Inr ([], s')"
       "polled s' = polled example_backend @
          replicate (nat (comm_tries example_backend)) (10, wait_time example_backend)"
    by blast
  have "polled example_backend @
          replicate (nat (comm_tries example_backend)) (10, wait_time example_backend)
        = [(10, 0), (10, 0), (10, 0)]"
    by (simp add: example_backend_def numeral_3_eq_3)
  with r show ?thesis by simp
qed

subsection \<open>Publishing to a broker that refuses every send\<close>

lemma send_loop_failing:
  assumes "prod_role s = Some p" and "\<forall>k. send_messages w k = Some BrokerResponseError"
    and "0 \<le> wait_time s"
  shows "send_loop w s msg False n_tries =
     Inr (False,
          s\<lparr>sends := sends s @ replicate (nat (comm_tries s - n_tries)) (topic_done s, msg),
            logs := logs s @
              map (\<lambda>i. (Warning, CouldNotSend i (comm_tries s))) [n_tries + 1..comm_tries s],
            slept := slept s @ replicate (nat (comm_tries s - n_tries)) (wait_time s)\<rparr>)"
  using assms(1,3)
proof (induction "nat (comm_tries s - n_tries)" arbitrary: s n_tries)
  case 0
  then have "\<not> n_tries < comm_tries s" by simp
  then show ?case using 0 by (subst send_loop.simps) simp
next
  case (Suc k)
  then have lt: "n_tries < comm_tries s" by simp
  let ?s2 = "s\<lparr>sends := sends s @ [(topic_done s, msg)],
               logs := logs s @ [(Warning, CouldNotSend (n_tries + 1) (comm_tries s))],
               slept := slept s @ [wait_time s]\<rparr>"
  have k: "k = nat (comm_tries ?s2 - (n_tries + 1))"
    using Suc(2) by simp
  have p2: "prod_role ?s2 = Some p" using Suc(3) by simp
  have w2: "0 \<le> wait_time ?s2" using Suc(4) by simp
  have step: "send_loop w s msg False n_tries = send_loop w ?s2 msg False (n_tries + 1)"
    using lt Suc(3,4) assms(2) by (subst send_loop.simps) (simp add: sleep_def warning_def Let_def)
  have n: "nat (comm_tries s - n_tries) = Suc k" using Suc(2) by simp
  have up: "[n_tries + 1..comm_tries s] = (n_tries + 1) # [n_tries + 1 + 1..comm_tries s]"
    using lt by (simp add: upto_rec1)
  show ?case
    unfolding step Suc(1)[OF k p2 w2] n up
    using k[symmetric]
    by (simp add: replicate_append_same)
qed


text \<open>
  C5. \<open>page_crawled\<close> is called with a connected producer, every \<open>send_messages\<close> raises
  BrokerResponseError, and the configured wait and number of tries are not negative. The
  call makes exactly \<open>comm_tries\<close> send attempts, all of the encoded event to the done
  topic, sleeps the wait after each, and \<open>_send_message\<close> returns False; \<open>page_crawled\<close>
  itself returns normally, dropping that boolean.
\<close>

theorem page_crawled_retries:
  assumes "prod_role s = Some p" and "\<forall>k. send_messages w k = Some BrokerResponseError"
    and "0 \<le> wait_time s" and "0 \<le> comm_tries s"
  shows "\<exists>s'. send_message lb w s (crawl_event url links) = Inr (False, s') \<and>
      page_crawled lb w s url links = Inr s' \<and>
      sends s' = sends s @ replicate (nat (comm_tries s))
        (topic_done s, encode lb (crawl_event url links)) \<and>
      int (length (sends s')) = int (length (sends s)) + comm_tries s \<and>
      slept s' = slept s @ replicate (nat (comm_tries s)) (wait_time s) \<and>
      producer_attempts s' = producer_attempts s"
proof -
  have conn: "connect_producer w s = Inr (True, s)"
    using assms(1) by (simp add: connect_producer_def)
  show ?thesis
    using assms(4) send_loop_failing[OF assms(1,2,3), of _ 0]
    by (simp add: page_crawled_def send_message_def conn)
qed

theorem page_crawled_retries_witness:
  "\<exists>s'. send_message example_lib idle_world example_backend
           (crawl_event ''http://a'' [''http://b''])
         = Inr (False, s') \<and>
      page_crawled example_lib idle_world example_backend ''http://a'' [''http://b''] = Inr s' \<and>
      sends s' = [(''frontier-done'', ''payload''), (''frontier-done'', ''payload''),
                  (''frontier-done'', ''payload'')]"
proof -
  have h1: "prod_role example_backend = Some (SimpleProducer (KafkaClient DEFAULT_SERVER))"
    by (simp add: example_backend_def)
  have h2: "\<forall>k. send_messages idle_world k = Some BrokerResponseError"
    by (simp add: idle_world_def)
  have h3: "0 \<le> wait_time example_backend" by (simp add: example_backend_def)
  have h4: "0 \<le> comm_tries example_backend" by (simp add: example_backend_def)
  let ?obj = "crawl_event ''http://a'' [''http://b'']"
  from page_crawled_retries[OF h1 h2 h3 h4, of example_lib "''http://a''" "[''http://b'']"]
  obtain s' where
    r: "send_message example_lib idle_world example_backend ?obj = Inr (False, s')"
       "page_crawled example_lib idle_world example_backend ''http://a'' [''http://b''] = Inr s'"
       "sends s' = sends example_backend @ replicate (nat (comm_tries example_backend))
          (topic_done example_backend, encode example_lib ?obj)"
    by blast
  have "sends example_backend @ replicate (nat (comm_tries example_backend))
          (topic_done example_backend, encode example_lib ?obj)
        = [(''frontier-done'', ''payload''), (''frontier-done'', ''payload''),
           (''frontier-done'', ''payload'')]"
    by (simp add: example_backend_def example_lib_def DEFAULT_TOPIC_DONE_def numeral_3_eq_3)
  with r show ?thesis by simp
qed

subsection \<open>Serving seeds\<close>

lemma slice_bound_le: "slice_bound i len \<le> len"
  by (auto simp: slice_bound_def)

lemma slice_bound_count: "0 \<le> n \<Longrightarrow> slice_bound (min (int len) n) len = min len (nat n)"
  by (auto simp: slice_bound_def min_def)

text \<open>
  C7. A call of \<open>get_next_requests\<close> that finds the seed buffer non-empty returns a prefix of
  the buffer and keeps the rest: \<open>k\<close> items, with \<open>k = min (len, max_n)\<close> when
  \<open>max_n \<ge> 0\<close>. The object it returns differs from the one it was given in the buffer
  only, so nothing was logged, no connection was attempted and nothing was polled; and
  the result is the same whatever the broker and the codec are. Conversely, a call after
  which a poll or a consumer connection attempt has been made began with an empty buffer.
\<close>

theorem seeds_served_without_broker:
  "(seeds s \<noteq> [] \<longrightarrow>
      (\<exists>k. get_next_requests lb w s max_n =
              Inr (take k (seeds s), s\<lparr>seeds := drop k (seeds s)\<rparr>) \<and>
           k \<le> length (seeds s) \<and>
           (0 \<le> max_n \<longrightarrow> k = min (length (seeds s)) (nat max_n))) \<and>
      get_next_requests lb' w' s max_n = get_next_requests lb w s max_n) \<and>
   (\<forall>r s'. get_next_requests lb w s max_n = Inr (r, s') \<and>
        (polled s' \<noteq> polled s \<or> consumer_attempts s' \<noteq> consumer_attempts s) \<longrightarrow>
        seeds s = [])"
proof -
  let ?k = "slice_bound (min (int (length (seeds s))) max_n) (length (seeds s))"
  have run: "get_next_requests lb w s max_n =
      Inr (take ?k (seeds s), s\<lparr>seeds := drop ?k (seeds s)\<rparr>)"
    if "seeds s \<noteq> []" for lb :: "'a lib" and w
    using that by (simp add: get_next_requests_seeds slice_to_def slice_from_def)
  have a: "seeds s \<noteq> [] \<longrightarrow>
      (\<exists>k. get_next_requests lb w s max_n =
              Inr (take k (seeds s), s\<lparr>seeds := drop k (seeds s)\<rparr>) \<and>
           k \<le> length (seeds s) \<and>
           (0 \<le> max_n \<longrightarrow> k = min (length (seeds s)) (nat max_n))) \<and>
      get_next_requests lb' w' s max_n = get_next_requests lb w s max_n"
  proof
    assume ne: "seeds s \<noteq> []"
    have "get_next_requests lb w s max_n =
              Inr (take ?k (seeds s), s\<lparr>seeds := drop ?k (seeds s)\<rparr>) \<and>
           ?k \<le> length (seeds s) \<and>
           (0 \<le> max_n \<longrightarrow> ?k = min (length (seeds s)) (nat max_n))"
      using run[OF ne] by (simp add: slice_bound_le slice_bound_count)
    then have "\<exists>k. get_next_requests lb w s max_n =
              Inr (take k (seeds s), s\<lparr>seeds := drop k (seeds s)\<rparr>) \<and>
           k \<le> length (seeds s) \<and>
           (0 \<le> max_n \<longrightarrow> k = min (length (seeds s)) (nat max_n))"
      by (rule exI)
    moreover have "get_next_requests lb' w' s max_n = get_next_requests lb w s max_n"
      using run[OF ne, of lb' w'] run[OF ne, of lb w] by simp
    ultimately show "(\<exists>k. get_next_requests lb w s max_n =
              Inr (take k (seeds s), s\<lparr>seeds := drop k (seeds s)\<rparr>) \<and>
           k \<le> length (seeds s) \<and>
           (0 \<le> max_n \<longrightarrow> k = min (length (seeds s)) (nat max_n))) \<and>
      get_next_requests lb' w' s max_n = get_next_requests lb w s max_n"
      by (rule conjI)
  qed
  have b: "\<forall>r s'. get_next_requests lb w s max_n = Inr (r, s') \<and>
        (polled s' \<noteq> polled s \<or> consumer_attempts s' \<noteq> consumer_attempts s) \<longrightarrow>
        seeds s = []"
  proof (intro allI impI)
    fix r s'
    assume h: "get_next_requests lb w s max_n = Inr (r, s') \<and>
        (polled s' \<noteq> polled s \<or> consumer_attempts s' \<noteq> consumer_attempts s)"
    show "seeds s = []"
    proof (rule ccontr)
      assume ne: "seeds s \<noteq> []"
      from run[OF ne, of lb w] h have "s' = s\<lparr>seeds := drop ?k (seeds s)\<rparr>" by simp
      then have "polled s' = polled s \<and> consumer_attempts s' = consumer_attempts s" by simp
      with h show False by simp
    qed
  qed
  show ?thesis using a b by (rule conjI)
qed

theorem seeds_served_without_broker_witness:
  "get_next_requests example_lib (batch_world [well_formed_body])
     (example_backend\<lparr>seeds := [Seed ''http://a'', Seed ''http://b'', Seed ''http://c'']\<rparr>) 2
   = Inr ([Seed ''http://a'', Seed ''http://b''],
          example_backend\<lparr>seeds := [Seed ''http://c'']\<rparr>) \<and>
   get_next_requests example_lib (batch_world [well_formed_body])
     (example_backend\<lparr>seeds := [Seed ''http://c'']\<rparr>) 2
   = Inr ([Seed ''http://c''], example_backend\<lparr>seeds := []\<rparr>)"
proof -
  let ?s = "example_backend\<lparr>seeds := [Seed ''http://a'', Seed ''http://b'', Seed ''http://c'']\<rparr>"
  let ?t = "example_backend\<lparr>seeds := [Seed ''http://c'']\<rparr>"
  let ?w = "batch_world [well_formed_body]"
  have s: "seeds ?s = [Seed ''http://a'', Seed ''http://b'', Seed ''http://c'']" by simp
  have t: "seeds ?t = [Seed ''http://c'']" by simp
  from seeds_served_without_broker[of ?s example_lib ?w 2 example_lib ?w]
  obtain k where
    k: "get_next_requests example_lib ?w ?s 2 = Inr (take k (seeds ?s), ?s\<lparr>seeds := drop k (seeds ?s)\<rparr>)"
       "(0::int) \<le> 2 \<longrightarrow> k = min (length (seeds ?s)) (nat 2)"
    unfolding s by auto
  from k(2) have "k = 2" by simp
  with k(1) have first: "get_next_requests example_lib ?w ?s 2 =
      Inr ([Seed ''http://a'', Seed ''http://b''], ?t)"
    by simp
  from seeds_served_without_broker[of ?t example_lib ?w 2 example_lib ?w]
  obtain j where
    j: "get_next_requests example_lib ?w ?t 2 = Inr (take j (seeds ?t), ?t\<lparr>seeds := drop j (seeds ?t)\<rparr>)"
       "(0::int) \<le> 2 \<longrightarrow> j = min (length (seeds ?t)) (nat 2)"
    unfolding t by auto
  from j(2) have "j = 1" by simp
  with j(1) have second: "get_next_requests example_lib ?w ?t 2 =
      Inr ([Seed ''http://c''], example_backend\<lparr>seeds := []\<rparr>)"
    by simp
  show ?thesis using first second by (rule conjI)
qed

subsection \<open>A consumer that cannot be connected\<close>

text \<open>
  C8, as the code has it. \<open>get_next_requests\<close> is called with an empty seed buffer and no
  consumer, and the broker answers the connection attempt with BrokerResponseError, the
  one class \<open>_connect_consumer\<close> catches. Then \<open>_connect_consumer\<close> returns False after
  logging a warning, and \<open>get_next_requests\<close> logs a second warning and returns the empty
  list: the result is a value, not an exception. The consumer stays unset and nothing is
  polled.
\<close>

theorem consumer_refused_returns_empty:
  assumes "seeds s = []" and "cons_role s = None"
    and "new_consumer w (consumer_attempts s) = Some BrokerResponseError"
  shows "connect_consumer w s =
       Inr (False, s\<lparr>consumer_attempts := consumer_attempts s + 1, cons_role := None,
                    logs := logs s @ [(Warning, CouldNotConnectConsumer)]\<rparr>) \<and>
     get_next_requests lb w s max_n =
       Inr ([], s\<lparr>consumer_attempts := consumer_attempts s + 1, cons_role := None,
                 logs := logs s @ [(Warning, CouldNotConnectConsumer),
                                   (Warning, CouldNotConnectConsumerTo (topic_todo s))]\<rparr>)"
  using assms
  by (simp add: get_next_requests_def connect_consumer_def warning_def Let_def)

theorem consumer_refused_returns_empty_witness:
  "get_next_requests example_lib unreachable_world (example_backend\<lparr>cons_role := None\<rparr>) 10 =
     Inr ([], example_backend\<lparr>consumer_attempts := 2, cons_role := None,
       logs := [(Warning, CouldNotConnectConsumer),
                (Warning, CouldNotConnectConsumerTo ''frontier-todo'')]\<rparr>)"
proof -
  let ?s = "example_backend\<lparr>cons_role := None\<rparr>"
  have h1: "seeds ?s = []" by (simp add: example_backend_def)
  have h2: "cons_role ?s = None" by simp
  have h3: "new_consumer unreachable_world (consumer_attempts ?s) = Some BrokerResponseError"
    by (simp add: unreachable_world_def)
  from consumer_refused_returns_empty[OF h1 h2 h3, of example_lib 10]
  show ?thesis by (simp add: example_backend_def DEFAULT_TOPIC_TODO_def)
qed

text \<open>
  C8 as stated fails: the claim covers every call in which the consumer cannot be
  connected. When the attempt is answered with KafkaUnavailableError, which
  \<open>_connect_consumer\<close> does not catch, the consumer cannot be connected either, and the
  exception leaves \<open>_connect_consumer\<close> and \<open>get_next_requests\<close>: no boolean, no warning,
  no empty list.
\<close>

theorem unavailable_consumer_is_thrown:
  "connect_consumer consumer_unavailable_world (example_backend\<lparr>cons_role := None\<rparr>)
     = Inl KafkaUnavailableError \<and>
   get_next_requests example_lib consumer_unavailable_world
     (example_backend\<lparr>cons_role := None\<rparr>) 10
     = Inl KafkaUnavailableError"
  by (simp add: get_next_requests_def connect_consumer_def consumer_unavailable_world_def
        example_backend_def Let_def)

subsection \<open>Batches of polled messages\<close>

lemma getitem_raises: "getitem obj key = Inl e \<Longrightarrow> e = KeyError \<or> e = TypeError"
  by (cases obj) (auto split: option.splits)

lemma url_of_Some:
  "url_of lb v = Some u \<longleftrightarrow> (\<exists>kvs. decode lb v = Inr (JObj kvs) \<and> map_of kvs ''url'' = Some u)"
proof (cases "decode lb v")
  case (Inl e)
  then show ?thesis by (simp add: url_of_def)
next
  case (Inr obj)
  then show ?thesis by (cases obj) (auto simp: url_of_def split: option.splits)
qed

lemma process_messages_Inr:
  "process_messages lb s urls success msgs = Inr r \<Longrightarrow>
   r = (urls @ List.map_filter (url_of lb) msgs, success \<or> msgs \<noteq> [],
        s\<lparr>logs := logs s @ concat (map (discard_warning lb (topic_todo s)) msgs)\<rparr>)"
proof (induction msgs arbitrary: s urls success)
  case Nil
  then show ?case by simp
next
  case (Cons v vs)
  show ?case
  proof (cases "decode lb v")
    case (Inl e)
    with Cons.prems have e: "e = ValueError" by (simp split: if_splits)
    with Inl Cons.prems have
      "process_messages lb (warning (CouldNotDecode (topic_todo s) v) s) urls True vs = Inr r"
      by simp
    from Cons.IH[OF this] show ?thesis
      using Inl by (simp add: url_of_def discard_warning_def warning_def)
  next
    case (Inr obj)
    show ?thesis
    proof (cases "getitem obj ''url''")
      case (Inl e)
      with getitem_raises have "e = KeyError \<or> e = TypeError" by blast
      with Inr Inl Cons.prems have
        "process_messages lb (warning NoUrlField s) urls True vs = Inr r"
        by auto
      from Cons.IH[OF this] show ?thesis
        using Inr Inl by (simp add: url_of_def discard_warning_def warning_def)
    next
      case u: (Inr u)
      with Inr Cons.prems have "process_messages lb s (urls @ [u]) True vs = Inr r"
        by simp
      from Cons.IH[OF this] show ?thesis
        using Inr u by (simp add: url_of_def discard_warning_def)
    qed
  qed
qed

lemma process_messages_returns:
  "\<forall>v\<in>set msgs. decode_returns_or_refuses lb v \<Longrightarrow>
   \<exists>r. process_messages lb s urls success msgs = Inr r"
proof (induction msgs arbitrary: s urls success)
  case Nil
  then show ?case by simp
next
  case (Cons v vs)
  then have vs: "\<forall>v\<in>set vs. decode_returns_or_refuses lb v" by simp
  show ?case
  proof (cases "decode lb v")
    case (Inl e)
    with Cons.prems have "e = ValueError" by (simp add: decode_returns_or_refuses_def)
    with Inl Cons.IH[OF vs] show ?thesis by simp
  next
    case (Inr obj)
    show ?thesis
    proof (cases "getitem obj ''url''")
      case (Inl e)
      with getitem_raises have "e = KeyError \<or> e = TypeError" by blast
      with Inr Inl Cons.IH[OF vs] show ?thesis by auto
    next
      case u: (Inr u)
      with Inr Cons.IH[OF vs] show ?thesis by simp
    qed
  qed
qed

lemma process_messages_batch:
  "\<forall>v\<in>set msgs. decode_returns_or_refuses lb v \<Longrightarrow>
   process_messages lb s urls success msgs =
     Inr (urls @ List.map_filter (url_of lb) msgs, success \<or> msgs \<noteq> [],
          s\<lparr>logs := logs s @ concat (map (discard_warning lb (topic_todo s)) msgs)\<rparr>)"
  using process_messages_returns[of msgs lb s urls success] process_messages_Inr[of lb s urls success msgs]
  by auto


lemma poll_loop_done: "poll_loop lb w s n urls fails True = Inr (urls, s)"
  by (subst poll_loop.simps) simp

lemma poll_loop_batch:
  assumes "cons_role s = Some c"
    and "\<forall>i<j. get_messages w (length (polled s) + i) = Inr []"
    and "get_messages w (length (polled s) + j) = Inr msgs"
    and "msgs \<noteq> []"
    and "fails + int j < comm_tries s"
    and "\<forall>v\<in>set msgs. decode_returns_or_refuses lb v"
  shows "poll_loop lb w s n urls fails False =
     Inr (urls @ List.map_filter (url_of lb) msgs,
          s\<lparr>polled := polled s @ replicate (Suc j) (n, wait_time s),
            logs := logs s @
              map (\<lambda>i. (Warning, Timeout (wait_time s) n i (comm_tries s)))
                [fails + 1..fails + int j] @
              concat (map (discard_warning lb (topic_todo s)) msgs)\<rparr>)"
  using assms(1,2,3,5)
proof (induction j arbitrary: s fails)
  case 0
  let ?s1 = "s\<lparr>polled := polled s @ [(n, wait_time s)]\<rparr>"
  have b: "process_messages lb ?s1 urls False msgs =
      Inr (urls @ List.map_filter (url_of lb) msgs, True,
           ?s1\<lparr>logs := logs ?s1 @ concat (map (discard_warning lb (topic_todo ?s1)) msgs)\<rparr>)"
    using process_messages_batch[OF assms(6), of ?s1 urls False] assms(4) by simp
  show ?case
    using 0 by (subst poll_loop.simps) (simp add: b poll_loop_done)
next
  case (Suc j)
  have lt: "fails < comm_tries s" using Suc.prems(4) by simp
  let ?s1 = "s\<lparr>polled := polled s @ [(n, wait_time s)]\<rparr>"
  let ?s2 = "warning (Timeout (wait_time s) n (fails + 1) (comm_tries s)) ?s1"
  have first: "get_messages w (length (polled s)) = Inr []"
    using Suc.prems(2)[rule_format, of 0] by simp
  have step: "poll_loop lb w s n urls fails False = poll_loop lb w ?s2 n urls (fails + 1) False"
    using lt Suc.prems(1) first by (subst poll_loop.simps) simp
  have c2: "cons_role ?s2 = Some c" using Suc.prems(1) by (simp add: warning_def)
  have idle2: "\<forall>i<j. get_messages w (length (polled ?s2) + i) = Inr []"
    using Suc.prems(2) by (auto simp: warning_def)
  have batch2: "get_messages w (length (polled ?s2) + j) = Inr msgs"
    using Suc.prems(3) by (simp add: warning_def)
  have tries2: "fails + 1 + int j < comm_tries ?s2"
    using Suc.prems(4) by (simp add: warning_def)
  have up: "[fails + 1..fails + int (Suc j)] = (fails + 1) # [fails + 1 + 1..fails + 1 + int j]"
    by (simp add: upto_rec1 add.commute add.left_commute)
  show ?case
    unfolding step Suc.IH[OF c2 idle2 batch2 tries2] up
    by (simp add: warning_def replicate_append_same)
qed

lemma discard_warning_length:
  "length (discard_warning lb topic v) = (if url_of lb v = None then 1 else 0)"
  by (simp add: discard_warning_def url_of_def split: sum.splits)

text \<open>
  C6, as the code has it. \<open>get_next_requests\<close> is called with an empty buffer and a
  connected consumer; the first \<open>j\<close> polls are empty, with \<open>j\<close> below \<open>comm_tries\<close>, and
  the next returns a non-empty batch on whose bodies the decoder returns or raises
  ValueError. The call returns, wrapped in \<open>Request\<close> and in arrival order, the \<open>url\<close>
  entry of every message of the batch that decodes to an object with such an entry,
  whatever the type of the entry. Every other message is dropped on its own and logged
  with one warning, "could not decode" when the decoder raised and "could not get url
  field" when the decoded value is not an object or has no \<open>url\<close> entry, and the messages
  after it are still processed.
\<close>

theorem malformed_messages_dropped:
  assumes "seeds s = []" and "cons_role s = Some c"
    and "\<forall>i<j. get_messages w (length (polled s) + i) = Inr []"
    and "get_messages w (length (polled s) + j) = Inr msgs"
    and "msgs \<noteq> []"
    and "int j < comm_tries s"
    and "\<forall>v\<in>set msgs. decode_returns_or_refuses lb v"
  shows "get_next_requests lb w s n =
     Inr (map (Request lb) (List.map_filter (url_of lb) msgs),
          s\<lparr>polled := polled s @ replicate (Suc j) (n, wait_time s),
            logs := logs s @
              map (\<lambda>i. (Warning, Timeout (wait_time s) n i (comm_tries s))) [1..int j] @
              concat (map (discard_warning lb (topic_todo s)) msgs)\<rparr>) \<and>
     (\<forall>v u. url_of lb v = Some u \<longleftrightarrow>
        (\<exists>kvs. decode lb v = Inr (JObj kvs) \<and> map_of kvs ''url'' = Some u)) \<and>
     (\<forall>v. discard_warning lb (topic_todo s) v =
        (if url_of lb v \<noteq> None then []
         else if (\<exists>obj. decode lb v = Inr obj) then [(Warning, NoUrlField)]
         else [(Warning, CouldNotDecode (topic_todo s) v)]))"
proof -
  have conn: "connect_consumer w s = Inr (True, s)"
    using assms(2) by (simp add: connect_consumer_def)
  have tries: "0 + int j < comm_tries s" using assms(6) by simp
  have run: "get_next_requests lb w s n =
     Inr (map (Request lb) (List.map_filter (url_of lb) msgs),
          s\<lparr>polled := polled s @ replicate (Suc j) (n, wait_time s),
            logs := logs s @
              map (\<lambda>i. (Warning, Timeout (wait_time s) n i (comm_tries s))) [1..int j] @
              concat (map (discard_warning lb (topic_todo s)) msgs)\<rparr>)"
    using assms(1) poll_loop_batch[OF assms(2,3,4,5) tries assms(7), of n "[]"]
    by (simp add: get_next_requests_def conn)
  have kept: "\<forall>v u. url_of lb v = Some u \<longleftrightarrow>
        (\<exists>kvs. decode lb v = Inr (JObj kvs) \<and> map_of kvs ''url'' = Some u)"
    by (simp add: url_of_Some)
  have dropped: "\<forall>v. discard_warning lb (topic_todo s) v =
        (if url_of lb v \<noteq> None then []
         else if (\<exists>obj. decode lb v = Inr obj) then [(Warning, NoUrlField)]
         else [(Warning, CouldNotDecode (topic_todo s) v)])"
    by (auto simp: discard_warning_def url_of_def split: sum.splits)
  show ?thesis using run kept dropped by blast
qed

lemma example_url_of:
  "url_of example_lib well_formed_body = Some (JStr ''http://a'')"
  "url_of example_lib no_url_body = None"
  "url_of example_lib numeric_url_body = Some (JNum 5)"
  "url_of example_lib garbage_body = None"
  by (simp_all add: url_of_def example_lib_def example_decode_def well_formed_body_def
        no_url_body_def numeric_url_body_def garbage_body_def)

lemma example_refuses:
  "decode_returns_or_refuses example_lib v"
  by (simp add: decode_returns_or_refuses_def example_lib_def example_decode_def)

theorem malformed_messages_dropped_witness:
  "get_next_requests example_lib (batch_world [well_formed_body, no_url_body]) example_backend 10
   = Inr ([RequestObj (JStr ''http://a'')],
          example_backend\<lparr>polled := [(10, 0)], logs := [(Warning, NoUrlField)]\<rparr>) \<and>
   get_next_requests example_lib (batch_world [garbage_body, well_formed_body]) example_backend 10
   = Inr ([RequestObj (JStr ''http://a'')],
          example_backend\<lparr>polled := [(10, 0)],
            logs := [(Warning, CouldNotDecode ''frontier-todo'' garbage_body)]\<rparr>)"
proof -
  have run: "get_next_requests example_lib (batch_world msgs) example_backend 10 =
      Inr (map RequestObj (List.map_filter (url_of example_lib) msgs),
           example_backend\<lparr>polled := [(10, 0)],
             logs := concat (map (discard_warning example_lib ''frontier-todo'') msgs)\<rparr>)"
    if ne: "msgs \<noteq> []" for msgs
  proof -
    have h1: "seeds example_backend = []" by (simp add: example_backend_def)
    have h2: "cons_role example_backend =
        Some (SimpleConsumer (KafkaClient DEFAULT_SERVER) DEFAULT_GROUP DEFAULT_TOPIC_TODO)"
      by (simp add: example_backend_def)
    have h3: "\<forall>i<0. get_messages (batch_world msgs) (length (polled example_backend) + i) = Inr []"
      by simp
    have h4: "get_messages (batch_world msgs) (length (polled example_backend) + 0) = Inr msgs"
      by (simp add: batch_world_def example_backend_def)
    have h6: "int 0 < comm_tries example_backend" by (simp add: example_backend_def)
    have h7: "\<forall>v\<in>set msgs. decode_returns_or_refuses example_lib v"
      by (simp add: example_refuses)
    have r: "Request example_lib = RequestObj" by (simp add: example_lib_def)
    have f: "polled example_backend = []" "wait_time example_backend = 0"
      "logs example_backend = []" "topic_todo example_backend = ''frontier-todo''"
      by (simp_all add: example_backend_def DEFAULT_TOPIC_TODO_def)
    from malformed_messages_dropped[OF h1 h2 h3 h4 ne h6 h7, of 10]
    show ?thesis by (simp add: r f)
  qed
  have d: "discard_warning example_lib ''frontier-todo'' well_formed_body = []"
    "discard_warning example_lib ''frontier-todo'' no_url_body = [(Warning, NoUrlField)]"
    "discard_warning example_lib ''frontier-todo'' garbage_body =
       [(Warning, CouldNotDecode ''frontier-todo'' garbage_body)]"
    by (simp_all add: discard_warning_def example_lib_def example_decode_def
          well_formed_body_def no_url_body_def numeric_url_body_def garbage_body_def)
  have a: "get_next_requests example_lib (batch_world [well_formed_body, no_url_body])
      example_backend 10
    = Inr ([RequestObj (JStr ''http://a'')],
          example_backend\<lparr>polled := [(10, 0)], logs := [(Warning, NoUrlField)]\<rparr>)"
    using run[of "[well_formed_body, no_url_body]"] by (simp add: example_url_of d)
  have b: "get_next_requests example_lib (batch_world [garbage_body, well_formed_body])
      example_backend 10
    = Inr ([RequestObj (JStr ''http://a'')],
          example_backend\<lparr>polled := [(10, 0)],
            logs := [(Warning, CouldNotDecode ''frontier-todo'' garbage_body)]\<rparr>)"
    using run[of "[garbage_body, well_formed_body]"] by (simp add: example_url_of d)
  show ?thesis using a b by (rule conjI)
qed

text \<open>
  C6 as stated fails: a message that decodes to an object whose \<open>url\<close> is the number 5
  has no string \<open>url\<close>, yet it is not dropped; the call returns a request built from 5.
\<close>

theorem numeric_url_is_returned:
  "map_sum id fst
     (get_next_requests example_lib (batch_world [numeric_url_body]) example_backend 10)
   = Inr [RequestObj (JNum 5)]"
  by (simp add: get_next_requests_def connect_consumer_def example_backend_def batch_world_def
        poll_loop.simps example_lib_def example_decode_def numeric_url_body_def
        well_formed_body_def no_url_body_def)

subsection \<open>Seeds as they are, broker URLs wrapped\<close>

lemma map_filter_member:
  "u \<in> set (List.map_filter f xs) \<Longrightarrow> \<exists>x\<in>set xs. f x = Some u"
  by (induction xs) (auto split: option.splits)

lemma poll_loop_urls:
  "poll_loop lb w s n urls fails success = Inr (urls', s') \<Longrightarrow>
   \<exists>new. urls' = urls @ new \<and> (\<forall>u\<in>set new. polled_url lb w u)"
proof (induction lb w s n urls fails success rule: poll_loop.induct)
  case (1 lb w s n urls fails success)
  show ?case
  proof (cases "\<not> success \<and> fails < comm_tries s")
    case False
    with "1.prems" have "urls' = urls" by (subst (asm) poll_loop.simps) auto
    then show ?thesis by simp
  next
    case True
    from True "1.prems" obtain c where c: "cons_role s = Some c"
      by (subst (asm) poll_loop.simps) (auto split: option.splits)
    from True c "1.prems" obtain msgs where m: "get_messages w (length (polled s)) = Inr msgs"
      by (subst (asm) poll_loop.simps) (auto split: sum.splits)
    let ?s0 = "s\<lparr>polled := polled s @ [(n, wait_time s)]\<rparr>"
    from True c m "1.prems" obtain urls1 success1 s1 where
      p: "process_messages lb ?s0 urls success msgs = Inr (urls1, success1, s1)"
      by (subst (asm) poll_loop.simps) (auto split: sum.splits)
    from process_messages_Inr[OF p] have u1: "urls1 = urls @ List.map_filter (url_of lb) msgs"
      by simp
    have got: "\<forall>u\<in>set (List.map_filter (url_of lb) msgs). polled_url lb w u"
      using m by (auto simp: polled_url_def dest!: map_filter_member)
    show ?thesis
    proof (cases success1)
      case False
      let ?s2 = "warning (Timeout (wait_time s1) n (fails + 1) (comm_tries s1)) s1"
      from True c m p False "1.prems" have
        "poll_loop lb w ?s2 n urls1 (fails + 1) success1 = Inr (urls', s')"
        by (subst (asm) poll_loop.simps) simp
      from "1.IH"(1)[OF True c m p refl refl False this]
      obtain new where "urls' = urls1 @ new" "\<forall>u\<in>set new. polled_url lb w u" by auto
      with u1 got show ?thesis by auto
    next
      case True1: True
      from True c m p True1 "1.prems" have
        run: "poll_loop lb w s1 n urls1 fails success1 = Inr (urls', s')"
        by (subst (asm) poll_loop.simps) simp
      from True1 have "\<not> \<not> success1" by simp
      from "1.IH"(2)[OF True c m p refl refl this run]
      obtain new where "urls' = urls1 @ new" "\<forall>u\<in>set new. polled_url lb w u" by auto
      with u1 got show ?thesis by auto
    qed
  qed
qed

text \<open>
  C10. A call served from the seed buffer returns a slice of the buffer, that is the very
  objects given to \<open>add_seeds\<close>, and returns the same whatever \<open>Request\<close> is: no seed is
  wrapped. A call that finds the buffer empty and returns, returns \<open>Request\<close> applied to
  each of a list of values, every one of them the \<open>url\<close> entry of a message the broker
  handed out.
\<close>

theorem seeds_as_is_broker_urls_wrapped:
  "(seeds s \<noteq> [] \<longrightarrow>
      get_next_requests lb w s n =
        Inr (slice_to (seeds s) (min (int (length (seeds s))) n),
             s\<lparr>seeds := slice_from (seeds s) (min (int (length (seeds s))) n)\<rparr>) \<and>
      (\<exists>k. slice_to (seeds s) (min (int (length (seeds s))) n) = take k (seeds s)) \<and>
      (\<forall>R. get_next_requests (lb\<lparr>Request := R\<rparr>) w s n = get_next_requests lb w s n)) \<and>
   (seeds s = [] \<longrightarrow>
      (\<forall>r s'. get_next_requests lb w s n = Inr (r, s') \<longrightarrow>
         (\<exists>urls. r = map (Request lb) urls \<and> (\<forall>u\<in>set urls. polled_url lb w u))))"
proof (intro conjI impI allI)
  assume "seeds s \<noteq> []"
  then show "get_next_requests lb w s n =
        Inr (slice_to (seeds s) (min (int (length (seeds s))) n),
             s\<lparr>seeds := slice_from (seeds s) (min (int (length (seeds s))) n)\<rparr>)"
    by (rule get_next_requests_seeds)
next
  show "\<exists>k. slice_to (seeds s) (min (int (length (seeds s))) n) = take k (seeds s)"
    unfolding slice_to_def by (rule exI) (rule refl)
next
  fix R
  assume ne: "seeds s \<noteq> []"
  show "get_next_requests (lb\<lparr>Request := R\<rparr>) w s n = get_next_requests lb w s n"
    using get_next_requests_seeds[OF ne, of "lb\<lparr>Request := R\<rparr>" w n]
      get_next_requests_seeds[OF ne, of lb w n]
    by simp
next
  fix r s'
  assume e: "seeds s = []" and run: "get_next_requests lb w s n = Inr (r, s')"
  show "\<exists>urls. r = map (Request lb) urls \<and> (\<forall>u\<in>set urls. polled_url lb w u)"
  proof (cases "connect_consumer w s")
    case (Inl x)
    with e run show ?thesis by (simp add: get_next_requests_def)
  next
    case (Inr p)
    obtain ok s1 where p: "p = (ok, s1)" by (cases p)
    show ?thesis
    proof (cases ok)
      case False
      with e run Inr p have "r = []" by (simp add: get_next_requests_def)
      then show ?thesis by simp
    next
      case True
      with e run Inr p obtain urls where
        u: "poll_loop lb w s1 n [] 0 False = Inr (urls, s')" "r = map (Request lb) urls"
        by (auto simp: get_next_requests_def split: sum.splits)
      from poll_loop_urls[OF u(1)] have "\<forall>u\<in>set urls. polled_url lb w u" by simp
      with u(2) show ?thesis by blast
    qed
  qed
qed

theorem seeds_as_is_broker_urls_wrapped_witness:
  "map_sum id fst
     (get_next_requests example_lib (batch_world [well_formed_body])
        (example_backend\<lparr>seeds := [Seed ''http://s'']\<rparr>) 10)
   = Inr [Seed ''http://s''] \<and>
   (\<exists>urls. map_sum id fst
      (get_next_requests example_lib (batch_world [well_formed_body]) example_backend 10)
     = Inr (map RequestObj urls) \<and> urls = [JStr ''http://a''])"
proof -
  let ?w = "batch_world [well_formed_body]"
  let ?s = "example_backend\<lparr>seeds := [Seed ''http://s'']\<rparr>"
  have ne: "seeds ?s \<noteq> []" by simp
  have e: "seeds example_backend = []" by (simp add: example_backend_def)
  from seeds_as_is_broker_urls_wrapped[of ?s example_lib ?w 10] ne
  have "get_next_requests example_lib ?w ?s 10 =
        Inr (slice_to (seeds ?s) (min (int (length (seeds ?s))) 10),
             ?s\<lparr>seeds := slice_from (seeds ?s) (min (int (length (seeds ?s))) 10)\<rparr>)"
    by blast
  then have first: "map_sum id fst (get_next_requests example_lib ?w ?s 10) = Inr [Seed ''http://s'']"
    by (simp add: slice_to_def slice_bound_def)
  have run: "get_next_requests example_lib ?w example_backend 10 =
      Inr ([RequestObj (JStr ''http://a'')],
           example_backend\<lparr>polled := [(10, 0)]\<rparr>)"
    by (simp add: get_next_requests_def connect_consumer_def example_backend_def batch_world_def
        poll_loop.simps example_lib_def example_decode_def numeric_url_body_def
        well_formed_body_def no_url_body_def)
  from seeds_as_is_broker_urls_wrapped[of example_backend example_lib ?w 10] e
  have "\<forall>r s'. get_next_requests example_lib ?w example_backend 10 = Inr (r, s') \<longrightarrow>
         (\<exists>urls. r = map (Request example_lib) urls \<and>
            (\<forall>u\<in>set urls. polled_url example_lib ?w u))"
    by (simp only: simp_thms)
  from this[rule_format, OF run]
  obtain urls where "[RequestObj (JStr ''http://a'')] = map (Request example_lib) urls"
    by (elim exE conjE)
  then have "urls = [JStr ''http://a'']"
    by (auto simp: example_lib_def map_eq_Cons_conv)
  with run have "\<exists>urls. map_sum id fst (get_next_requests example_lib ?w example_backend 10)
     = Inr (map RequestObj urls) \<and> urls = [JStr ''http://a'']"
    by simp
  with first show ?thesis by (rule conjI)
qed

subsection \<open>Stopping without a producer\<close>

lemma frontier_stop_unset: "prod_role s = None \<Longrightarrow> frontier_stop s = Inl AttributeError"
  by (simp add: frontier_stop_def)

lemma frontier_start_producer: "frontier_start w s = Inr s' \<Longrightarrow> prod_role s' = prod_role s"
  by (auto simp: frontier_start_def connect_consumer_def info_def warning_def Let_def
        split: if_splits option.splits)

lemma frontier_start_test_manager:
  "manager s = TestManager \<Longrightarrow> cons_role s = Some c \<Longrightarrow> frontier_start w s = Inl AttributeError"
  by (simp add: frontier_start_def connect_consumer_def info_def)

text \<open>
  C2. The backend is built against a broker that refuses the producer with
  BrokerResponseError, by a caller that supplies its manager. The constructor returns with
  the producer unset, \<open>frontier_start\<close> returns and leaves it unset, and \<open>frontier_stop\<close>
  then raises AttributeError.
\<close>

theorem stop_raises_without_producer:
  "map_sum id prod_role
     (and_then
        (init producer_down_world (Some (FrontierManager [])) None None None None None None
           :: exn + pyobj backend)
        (frontier_start producer_down_world))
     = Inr None \<and>
   and_then
     (and_then (init producer_down_world (Some (FrontierManager [])) None None None None None None)
        (frontier_start producer_down_world))
     frontier_stop
   = (Inl AttributeError :: exn + pyobj backend)"
  by (simp add: and_then_def init_def producer_down_world_def connect_consumer_def
        connect_producer_def frontier_start_def frontier_stop_def info_def warning_def
        manager_or_def str_or_def real_or_def int_or_def Let_def)

subsection \<open>A wait of zero\<close>

lemma init_wait_time:
  "init w m srv g tt td wt ct = Inr s \<Longrightarrow> wait_time s = real_or wt DEFAULT_WAIT_TIME"
  by (auto simp: init_def connect_consumer_def connect_producer_def warning_def Let_def
        split: option.splits if_splits)

lemma real_or_zero: "real_or (Some 0) d = d"
  by (simp add: real_or_def)

text \<open>
  C3. Built with \<open>wait_time = 0\<close> and nothing else supplied, the backend waits the default
  of one second: \<open>wait_time or DEFAULT_WAIT_TIME\<close> takes the default for zero as it
  does for None.
\<close>

theorem zero_wait_time_replaced_by_default:
  "map_sum id wait_time
     (init idle_world None None None None None (Some 0) None :: exn + pyobj backend)
   = Inr 1"
  by (simp add: init_def idle_world_def connect_consumer_def connect_producer_def
        manager_or_def str_or_def real_or_def int_or_def Let_def DEFAULT_WAIT_TIME_def)

subsection \<open>The round trip of the codec\<close>

lemma hex_value_digit: "n < 16 \<Longrightarrow> hex_value (hex_digit n) = Some n"
  by (auto simp: hex_value_def hex_digit_def Let_def)

lemma parse_escape_char:
  "parse_chars (escape_char c @ cs) =
     (case parse_chars cs of None \<Rightarrow> None | Some (s, r) \<Rightarrow> Some (c # s, r))"
proof -
  consider "c = CHR 0x22" | "c = CHR 0x5C"
    | "c \<noteq> CHR 0x22" "c \<noteq> CHR 0x5C" "(of_char c :: nat) < 32"
    | "c \<noteq> CHR 0x22" "c \<noteq> CHR 0x5C" "\<not> (of_char c :: nat) < 32"
    by blast
  then show ?thesis
  proof cases
    case 1
    then show ?thesis
      by (simp add: escape_char_def parse_chars.simps(2)[of "CHR 0x5C"] short_escape_def
            split: option.splits)
  next
    case 2
    then show ?thesis
      by (simp add: escape_char_def parse_chars.simps(2)[of "CHR 0x5C"] short_escape_def
            split: option.splits)
  next
    case 3
    let ?k = "of_char c :: nat"
    have hi: "?k div 16 < 16" and lo: "?k mod 16 < 16" using 3(3) by auto
    have z: "hex_value CHR ''0'' = Some 0" by (simp add: hex_value_def)
    have "hex4 [CHR ''0'', CHR ''0'', hex_digit (?k div 16), hex_digit (?k mod 16)] = Some ?k"
      using hi lo by (simp add: hex4_def z hex_value_digit)
    moreover have "utf8 ?k = [c]" using 3(3) by (simp add: utf8_def)
    ultimately show ?thesis
      using 3 by (simp add: escape_char_def parse_chars.simps(2)[of "CHR 0x5C"]
                    split: option.splits)
  next
    case 4
    then show ?thesis
      by (simp add: escape_char_def parse_chars.simps(2)[of c] split: option.splits)
  qed
qed

lemma parse_chars_escaped:
  "parse_chars (concat (map escape_char s) @ CHR 0x22 # rest) = Some (s, rest)"
proof (induction s)
  case Nil
  show ?case by (simp add: parse_chars.simps(2)[of "CHR 0x22"])
next
  case (Cons c s)
  then show ?case by (simp add: parse_escape_char)
qed

lemma skip_ws_keep: "\<not> is_ws c \<Longrightarrow> skip_ws (c # cs) = c # cs"
  by (simp add: skip_ws_def)

lemma skip_ws_space: "skip_ws (CHR 0x20 # cs) = skip_ws cs"
  by (simp add: skip_ws_def is_ws_def)

lemma not_ws:
  "\<not> is_ws (CHR 0x22)" "\<not> is_ws (CHR 0x5B)" "\<not> is_ws (CHR 0x5D)" "\<not> is_ws (CHR 0x7B)"
  "\<not> is_ws (CHR 0x7D)" "\<not> is_ws (CHR '','')" "\<not> is_ws (CHR '':'')"
  by (simp_all add: is_ws_def)

lemma parse_value_quote:
  "parse_value (Suc n) (quote s @ rest) = Some (JStr s, rest)"
  by (simp add: parse_value_step quote_def skip_ws_keep not_ws parse_chars_escaped)

lemma parse_value_space: "parse_value n (CHR 0x20 # cs) = parse_value n cs"
  by (cases n) (simp_all add: parse_value.simps(1) parse_value_step skip_ws_space)

lemma parse_elems_space: "parse_elems n (CHR 0x20 # cs) = parse_elems n cs"
  by (cases n) (simp_all add: parse_elems.simps(1) parse_elems_step parse_value_space)

lemma parse_members_space: "parse_members n (CHR 0x20 # cs) = parse_members n cs"
  by (cases n) (simp_all add: parse_members.simps(1) parse_members_step skip_ws_space)

lemma parse_elems_quotes:
  "ls \<noteq> [] \<Longrightarrow> length ls < n \<Longrightarrow>
   parse_elems n (join '', '' (map quote ls) @ CHR 0x5D # rest) = Some (map JStr ls, rest)"
proof (induction ls arbitrary: n)
  case Nil
  then show ?case by simp
next
  case (Cons l ls)
  then obtain m where n: "n = Suc (Suc m)" and m: "length ls \<le> m"
    by (cases n; cases "n - 1") auto
  show ?case
  proof (cases ls)
    case Nil
    then show ?thesis
      by (simp add: n parse_elems_step parse_value_quote skip_ws_keep not_ws)
  next
    case (Cons k ks)
    have "parse_elems (Suc m) (join '', '' (map quote ls) @ CHR 0x5D # rest)
          = Some (map JStr ls, rest)"
      using Cons.IH[of "Suc m"] Cons m by simp
    then show ?thesis
      using Cons
      by (simp add: n parse_elems_step[of "Suc m"] parse_value_quote skip_ws_keep not_ws
            parse_elems_space)
  qed
qed

lemma parse_value_array:
  "length ls < n \<Longrightarrow>
   parse_value (Suc n) (json_encode (JArr (map JStr ls)) @ rest) = Some (JArr (map JStr ls), rest)"
proof (cases ls)
  case Nil
  then show ?thesis by (simp add: parse_value_step skip_ws_keep not_ws)
next
  case (Cons l ks)
  assume len: "length ls < n"
  have q: "map (json_encode \<circ> JStr) ls = map quote ls" by simp
  have first: "\<exists>r. join '', '' (map quote ls) @ CHR 0x5D # rest = CHR 0x22 # r"
    using Cons by (cases ks) (simp_all add: quote_def)
  then obtain r where r: "join '', '' (map quote ls) @ CHR 0x5D # rest = CHR 0x22 # r" ..
  have "parse_elems n (CHR 0x22 # r) = Some (map JStr ls, rest)"
    using parse_elems_quotes[of ls n rest] Cons len unfolding r by simp
  then show ?thesis
    by (simp add: parse_value_step skip_ws_keep not_ws q r)
qed


lemma parse_members_pair:
  assumes "parse_value n rest = Some (v, r3)" and "skip_ws r3 = d # r4"
  shows "parse_members (Suc n) (quote k @ CHR '':'' # rest) =
     (if d = CHR '','' then
        (case parse_members n r4 of None \<Rightarrow> None | Some (kvs, r5) \<Rightarrow> Some ((k, v) # kvs, r5))
      else if d = CHR 0x7D then Some ([(k, v)], r4)
      else None)"
  using assms
  by (simp add: parse_members_step quote_def skip_ws_keep not_ws parse_chars_escaped)

lemma parse_value_object:
  "parse_members n (quote k @ cs) = Some (kvs, r) \<Longrightarrow>
   parse_value (Suc n) (CHR 0x7B # quote k @ cs) = Some (JObj kvs, r)"
  by (simp add: parse_value_step quote_def skip_ws_keep not_ws)

lemma encode_event:
  "json_encode (crawl_event u ls) =
     CHR 0x7B # quote ''url'' @ CHR '':'' # CHR 0x20 # quote u @ CHR '','' # CHR 0x20 #
       quote ''links'' @ CHR '':'' # CHR 0x20 # json_encode (JArr (map JStr ls)) @ [CHR 0x7D]"
  by (simp add: crawl_event_def)

lemma parse_value_event:
  assumes "length ls + 3 < n"
  shows "parse_value (Suc n) (json_encode (crawl_event u ls) @ rest) = Some (crawl_event u ls, rest)"
proof -
  from assms obtain m where n: "n = Suc (Suc (Suc m))" and m: "length ls < m"
    by (cases n; cases "n - 1"; cases "n - 2") auto
  let ?arr = "json_encode (JArr (map JStr ls))"
  let ?m2 = "quote ''links'' @ CHR '':'' # CHR 0x20 # ?arr @ CHR 0x7D # rest"
  have arr: "parse_value (Suc m) (CHR 0x20 # ?arr @ CHR 0x7D # rest)
      = Some (JArr (map JStr ls), CHR 0x7D # rest)"
    using parse_value_array[OF m, of "CHR 0x7D # rest"] by (simp only: parse_value_space)
  have close: "skip_ws (CHR 0x7D # rest) = CHR 0x7D # rest"
    by (simp add: skip_ws_keep not_ws)
  have second: "parse_members (Suc (Suc m)) ?m2 = Some ([(''links'', JArr (map JStr ls))], rest)"
    using parse_members_pair[OF arr close, of "''links''"] by simp
  have url: "parse_value (Suc (Suc m)) (CHR 0x20 # quote u @ CHR '','' # CHR 0x20 # ?m2)
      = Some (JStr u, CHR '','' # CHR 0x20 # ?m2)"
    by (simp only: parse_value_space parse_value_quote)
  have comma: "skip_ws (CHR '','' # CHR 0x20 # ?m2) = CHR '','' # CHR 0x20 # ?m2"
    by (simp add: skip_ws_keep not_ws)
  have first: "parse_members (Suc (Suc (Suc m)))
        (quote ''url'' @ CHR '':'' # CHR 0x20 # quote u @ CHR '','' # CHR 0x20 # ?m2)
      = Some ([(''url'', JStr u), (''links'', JArr (map JStr ls))], rest)"
    using parse_members_pair[OF url comma, of "''url''"] second
    by (simp add: parse_members_space)
  show ?thesis
    using parse_value_object[OF first]
    by (simp add: n encode_event crawl_event_def)
qed

text \<open>The payload of an event, in the wire format of the spec.\<close>

lemma encode_event_example:
  \<open>json_encode (crawl_event ''http://a'' [''b'', ''c''])
     = ''{"url": "http://a", "links": ["b", "c"]}''\<close>
  by (simp add: crawl_event_def quote_def escape_char_def)

lemma join_quotes_length: "length ls \<le> length (join sep (map quote ls))"
  by (induction ls rule: induct_list012) (simp_all add: quote_def)

text \<open>
  C9. For every URL and every list of link URLs, arbitrary byte strings (so any UTF-8
  text, with quotes, backslashes and control characters), decoding the encoding of the
  crawl event \<open>{url, links}\<close> returns that event: the decoder does not fail, and the value
  it returns is the event itself.
\<close>

theorem event_round_trip:
  "json_decode (json_encode (crawl_event url links)) = Inr (crawl_event url links)"
proof -
  have "length links \<le> length (json_encode (JArr (map JStr links)))"
    using join_quotes_length[of links "'', ''"] by (simp add: comp_def)
  then have "length links + 3 < 2 * length (json_encode (crawl_event url links))"
    by (simp add: encode_event)
  from parse_value_event[OF this, of url "[]"] show ?thesis
    by (simp add: json_decode_def skip_ws_def)
qed

end
